theory Spec2Isabelle
  imports Main "HOL-Library.Sublist"
begin

section \<open>Regular expressions as the \<open>re\<close> module runs them\<close>

text \<open>
  The two patterns of \<open>list/instance.py\<close> use character classes (\<open>.\<close>, \<open>\s\<close>, \<open>\d\<close>,
  \<open>[^/]\<close>), literal text, concatenation, the greedy repetitions \<open>*\<close>, \<open>+\<close> and \<open>?\<close>,
  named groups and \<open>^\<close>. The syntax tree below has one constructor for each;
  \<open>r+\<close> is \<open>r\<close> followed by \<open>r*\<close>. Unnamed parentheses only group (no pattern has a
  back-reference and no unnamed group is ever read), so they leave no node.

  The code is Python 2 (\<open>imgerror.message\<close>, \<open>str\<close> output of \<open>check_output\<close> matched
  against \<open>str\<close> patterns): \<open>.\<close> is every byte but the newline, \<open>\s\<close> is one of the six
  ASCII white-space bytes, \<open>\d\<close> is \<open>0\<close> to \<open>9\<close>.
\<close>

datatype cls = Dot | Space | Digit | Ch char | NotCh char

fun accepts :: "cls \<Rightarrow> char \<Rightarrow> bool" where
  "accepts Dot c = (c \<noteq> CHR 0x0A)"
| "accepts Space c = (c \<in> set [CHR '' '', CHR 0x09, CHR 0x0A, CHR 0x0D, CHR 0x0C, CHR 0x0B])"
| "accepts Digit c = (c \<in> set ''0123456789'')"
| "accepts (Ch d) c = (c = d)"
| "accepts (NotCh d) c = (c \<noteq> d)"

datatype re = One cls | Lit string | Seq re re | Star re | Opt re | Grp string re | Bol

definition plus :: "re \<Rightarrow> re" where
  "plus r = Seq r (Star r)"

fun seqs :: "re list \<Rightarrow> re" where
  "seqs [] = Lit []"
| "seqs [r] = r"
| "seqs (r # rs) = Seq r (seqs rs)"

type_synonym groups = "string \<rightharpoonup> string"

text \<open>
  The matcher is a backtracking machine, as the \<open>re\<close> engine is: a stack of what is
  still to be matched, the rest of the subject, and the groups captured so far. A
  greedy repetition tries one more round first and gives it up only when everything
  after it fails; an optional part is tried before it is skipped. \<open>EndGrp n s0\<close>
  closes the group \<open>n\<close> opened when the rest was \<open>s0\<close>; \<open>Chk r n\<close> ends one round of
  \<open>r*\<close> that began with \<open>n\<close> characters left and starts the next round only if the
  round consumed something (no round of the patterns here can be empty). The flag
  tells whether the position is still the start of the subject, which is what \<open>^\<close>
  asks. The result is the groups of the first successful path, \<open>None\<close> when there
  is none.
\<close>

datatype frame = R re | EndGrp string string | Chk re nat

fun strip_prefix :: "string \<Rightarrow> string \<Rightarrow> string option" where
  "strip_prefix [] s = Some s"
| "strip_prefix (c # cs) [] = None"
| "strip_prefix (c # cs) (d # ds) = (if c = d then strip_prefix cs ds else None)"

fun wt :: "re \<Rightarrow> nat" where
  "wt (One c) = 1"
| "wt (Lit l) = 1"
| "wt (Seq a b) = Suc (wt a + wt b)"
| "wt (Star r) = wt r + 3"
| "wt (Opt r) = Suc (wt r)"
| "wt (Grp n r) = wt r + 2"
| "wt Bol = 1"

fun fwt :: "nat \<Rightarrow> frame \<Rightarrow> nat" where
  "fwt L (R r) = wt r"
| "fwt L (EndGrp n s0) = 1"
| "fwt L (Chk r n) = (if L < n then wt r + 4 else 1)"

lemma strip_prefix_len: "strip_prefix l s = Some s' \<Longrightarrow> length s' \<le> length s"
  by (induction l s rule: strip_prefix.induct) (auto split: if_splits)

function (sequential) run :: "frame list \<Rightarrow> bool \<Rightarrow> string \<Rightarrow> groups \<Rightarrow> groups option" where
  "run [] b s g = Some g"
| "run (R (One c) # k) b [] g = None"
| "run (R (One c) # k) b (x # xs) g = (if accepts c x then run k False xs g else None)"
| "run (R (Lit l) # k) b s g =
     (case strip_prefix l s of None \<Rightarrow> None | Some s' \<Rightarrow> run k (b \<and> l = []) s' g)"
| "run (R (Seq r1 r2) # k) b s g = run (R r1 # R r2 # k) b s g"
| "run (R (Star r) # k) b s g =
     (case run (R r # Chk r (length s) # k) b s g of
        Some res \<Rightarrow> Some res
      | None \<Rightarrow> run k b s g)"
| "run (Chk r n # k) b s g =
     (if length s < n then run (R (Star r) # k) b s g else run k b s g)"
| "run (R (Opt r) # k) b s g =
     (case run (R r # k) b s g of Some res \<Rightarrow> Some res | None \<Rightarrow> run k b s g)"
| "run (R (Grp n r) # k) b s g = run (R r # EndGrp n s # k) b s g"
| "run (EndGrp n s0 # k) b s g = run k b s (g(n \<mapsto> take (length s0 - length s) s0))"
| "run (R Bol # k) b s g = (if b then run k b s g else None)"
  by pat_completeness auto
termination
  by (relation "measures [\<lambda>(k, b, s, g). length s,
                          \<lambda>(k, b, s, g). sum_list (map (fwt (length s)) k)]")
     (auto dest: strip_prefix_len simp: le_less)

text \<open>\<open>pattern.match(line)\<close>: the match is anchored at the start of the line, not at its end.\<close>

definition re_match :: "re \<Rightarrow> string \<Rightarrow> groups option" where
  "re_match r s = run [R r] True s Map.empty"

section \<open>Strings and numbers of the Python runtime\<close>

text \<open>\<open>str.splitlines()\<close>: lines end at \<open>\n\<close>, \<open>\r\<close> or \<open>\r\n\<close>; no empty last line.\<close>

fun splitlines_from :: "string \<Rightarrow> string \<Rightarrow> string list" where
  "splitlines_from acc [] = (if acc = [] then [] else [rev acc])"
| "splitlines_from acc (c # cs) =
     (if c = CHR 0x0A then rev acc # splitlines_from [] cs
      else if c = CHR 0x0D then
        (case cs of
           [] \<Rightarrow> [rev acc]
         | d # ds \<Rightarrow> if d = CHR 0x0A then rev acc # splitlines_from [] ds
                     else rev acc # splitlines_from [] cs)
      else splitlines_from (c # acc) cs)"

definition splitlines :: "string \<Rightarrow> string list" where
  "splitlines s = splitlines_from [] s"

text \<open>\<open>str.strip()\<close> removes white space at both ends.\<close>

definition strip :: "string \<Rightarrow> string" where
  "strip s = rev (dropWhile (accepts Space) (rev (dropWhile (accepts Space) s)))"

text \<open>\<open>int(s)\<close> on a string of decimal digits, and \<open>"%d" % n\<close> for \<open>n \<ge> 0\<close>.\<close>

definition digit_val :: "char \<Rightarrow> nat" where
  "digit_val c = of_char c - 48"

definition int_of_digits :: "string \<Rightarrow> nat" where
  "int_of_digits ds = foldl (\<lambda>a c. 10 * a + digit_val c) 0 ds"

definition digit_char :: "nat \<Rightarrow> char" where
  "digit_char n = ''0123456789'' ! n"

function show_nat :: "nat \<Rightarrow> string" where
  "show_nat n = (if n < 10 then [digit_char n] else show_nat (n div 10) @ [digit_char (n mod 10)])"
  by pat_completeness auto
termination
  by (relation "measure id") auto

declare show_nat.simps [simp del]

text \<open>\<open>"%s" % x\<close> where \<open>x\<close> is a string or \<open>None\<close>.\<close>

definition fmt_s :: "string option \<Rightarrow> string" where
  "fmt_s x = (case x of None \<Rightarrow> ''None'' | Some s \<Rightarrow> s)"

section \<open>Constants\<close>

text \<open>
  Modelled from the spec: the module \<open>acloud.internal.constants\<close> is not among the
  sources. The default remote ports are the ones of the spec's tunnel property
  (VNC 6444, ADB 6520), the local instance name is the one \<open>delete_test.py\<close> expects,
  the status is the spec's RUNNING, and the two command names are those of
  \<open>delete_test.py\<close>. The device type and the three metadata keys are named in the spec
  without a value; no statement below depends on the values chosen for them.
\<close>

definition DEFAULT_VNC_PORT :: nat where "DEFAULT_VNC_PORT = 6444"
definition DEFAULT_ADB_PORT :: nat where "DEFAULT_ADB_PORT = 6520"
definition LOCAL_INS_NAME :: string where "LOCAL_INS_NAME = ''local-instance''"
definition INS_STATUS_RUNNING :: string where "INS_STATUS_RUNNING = ''RUNNING''"
definition TYPE_CF :: string where "TYPE_CF = ''cuttlefish''"
definition INS_KEY_DISPLAY :: string where "INS_KEY_DISPLAY = ''display''"
definition INS_KEY_AVD_TYPE :: string where "INS_KEY_AVD_TYPE = ''avd_type''"
definition INS_KEY_AVD_FLAVOR :: string where "INS_KEY_AVD_FLAVOR = ''flavor''"
definition CMD_LAUNCH_CVD :: string where "CMD_LAUNCH_CVD = ''launch_cvd''"
definition CMD_STOP_CVD :: string where "CMD_STOP_CVD = ''stop_cvd''"

section \<open>The patterns of \<open>list/instance.py\<close>\<close>

definition RE_GROUP_ADB :: string where "RE_GROUP_ADB = ''local_adb_port''"
definition RE_GROUP_VNC :: string where "RE_GROUP_VNC = ''local_vnc_port''"

text \<open>
  The target address is pasted into the pattern text unescaped, so each of its dots is
  the class \<open>.\<close>; every other character of a dotted address stands for itself.
\<close>

primrec ip_pattern :: "string \<Rightarrow> re" where
  "ip_pattern [] = Lit []"
| "ip_pattern (c # cs) = Seq (if c = CHR ''.'' then One Dot else One (Ch c)) (ip_pattern cs)"

text \<open>One clause \<open>(.*\s*-L\s)(?P<group>\d+):127.0.0.1:port\<close>; the dots of the loopback
  address are unescaped as well.\<close>

definition forward_clause :: "string \<Rightarrow> string \<Rightarrow> re" where
  "forward_clause grp port =
     seqs [Star (One Dot), Star (One Space), Lit ''-L'', One Space,
           Grp grp (plus (One Digit)),
           Lit '':127'', One Dot, Lit ''0'', One Dot, Lit ''0'', One Dot, Lit ''1:'', Lit port]"

definition RE_SSH_TUNNEL_PATTERN :: "string \<Rightarrow> string \<Rightarrow> string \<Rightarrow> string \<Rightarrow> string \<Rightarrow> re" where
  "RE_SSH_TUNNEL_PATTERN g1 port1 g2 port2 ip =
     Seq (forward_clause g1 port1)
         (Seq (forward_clause g2 port2)
              (Seq (plus (One Dot)) (ip_pattern ip)))"

text \<open>One optional part \<open>((.*\s*-flag\s)(?P<group>\d+))?\<close> of the launch pattern.\<close>

definition flag_re :: "string \<Rightarrow> string \<Rightarrow> re" where
  "flag_re flag grp =
     Opt (seqs [Star (One Dot), Star (One Space), Lit flag, One Space,
                Grp grp (plus (One Digit))])"

definition RE_LAUNCH_CVD :: re where
  "RE_LAUNCH_CVD =
     seqs [Grp ''date_str'' (Seq Bol (plus (One (NotCh CHR ''/'')))),
           plus (Seq (Star (One Dot)) (Lit ''launch_cvd --daemon '')),
           flag_re ''-cpus'' ''cpu'',
           flag_re ''-x_res'' ''x_res'',
           flag_re ''-y_res'' ''y_res'',
           flag_re ''-dpi'' ''dpi'',
           flag_re ''-memory_mb'' ''memory'',
           flag_re ''-blank_data_image_mb'' ''disk'']"

definition FULL_NAME_STRING :: "string \<Rightarrow> string \<Rightarrow> string" where
  "FULL_NAME_STRING device_serial instance_name =
     ''device serial: '' @ device_serial @ '' ('' @ instance_name @ '')''"

section \<open>Instances\<close>

text \<open>
  What the Python code can raise on the paths modelled: iterating or reading a missing
  value (\<open>TypeError\<close>, \<open>AttributeError\<close>), a metadata item without its key
  (\<open>KeyError\<close>), the errors of \<open>acloud.errors\<close> and a failed subprocess.
\<close>

datatype error =
    TypeError
  | AttributeError
  | KeyError string
  | GetLocalImageError string
  | GetCvdLocalHostPackageError string
  | LaunchCVDFail string
  | CalledProcessError string

text \<open>The fields of class \<open>Instance\<close>; \<open>__init__\<close> sets each of them to \<open>None\<close>.\<close>

record instance_obj =
  ins_name :: "string option"
  ins_fullname :: "string option"
  ins_status :: "string option"
  ins_display :: "string option"
  ins_ip :: "string option"
  ins_adb_port :: "nat option"
  ins_vnc_port :: "nat option"
  ins_ssh_tunnel_is_connected :: "bool option"
  ins_createtime :: "string option"
  ins_avd_type :: "string option"
  ins_avd_flavor :: "string option"
  ins_is_local :: "bool option"

definition Instance :: instance_obj where
  "Instance = \<lparr>ins_name = None, ins_fullname = None, ins_status = None, ins_display = None,
               ins_ip = None, ins_adb_port = None, ins_vnc_port = None,
               ins_ssh_tunnel_is_connected = None, ins_createtime = None,
               ins_avd_type = None, ins_avd_flavor = None, ins_is_local = None\<rparr>"

subsection \<open>The tunnel lookup\<close>

record ForwardedPorts =
  vnc_port :: "nat option"
  adb_port :: "nat option"

text \<open>The loop over the lines of the process table, left at the first line that matches.\<close>

fun first_match :: "re \<Rightarrow> string list \<Rightarrow> groups option" where
  "first_match r [] = None"
| "first_match r (l # ls) =
     (case re_match r l of Some g \<Rightarrow> Some g | None \<Rightarrow> first_match r ls)"

text \<open>\<open>int(match.group(name))\<close>; \<open>int(None)\<close> is a \<open>TypeError\<close>.\<close>

definition group_int :: "groups \<Rightarrow> string \<Rightarrow> error + nat" where
  "group_int g n = (case g n of None \<Rightarrow> Inl TypeError | Some ds \<Rightarrow> Inr (int_of_digits ds))"

text \<open>
  \<open>GetAdbVncPortFromSSHTunnel(ip)\<close>. The output of \<open>subprocess.check_output(COMMAND_PS)\<close>
  is the second argument. The debug log line after the loop has no effect on the
  result (the logging module reports a formatting problem itself and goes on).
\<close>

definition GetAdbVncPortFromSSHTunnel :: "string \<Rightarrow> string \<Rightarrow> error + ForwardedPorts" where
  "GetAdbVncPortFromSSHTunnel ip process_output =
     (let re_pattern = RE_SSH_TUNNEL_PATTERN RE_GROUP_VNC (show_nat DEFAULT_VNC_PORT)
                                             RE_GROUP_ADB (show_nat DEFAULT_ADB_PORT) ip
      in case first_match re_pattern (splitlines process_output) of
           None \<Rightarrow> Inr \<lparr>vnc_port = None, adb_port = None\<rparr>
         | Some g \<Rightarrow>
             (case group_int g RE_GROUP_ADB of
                Inl e \<Rightarrow> Inl e
              | Inr a \<Rightarrow>
                  (case group_int g RE_GROUP_VNC of
                     Inl e \<Rightarrow> Inl e
                   | Inr v \<Rightarrow> Inr \<lparr>vnc_port = Some v, adb_port = Some a\<rparr>)))"

subsection \<open>Remote instances\<close>

text \<open>
  The instance description returned by the provider, read with \<open>dict.get\<close>: a key
  that is missing reads as \<open>None\<close>.
\<close>

record access_config =
  natIP :: "string option"

record network_interface =
  accessConfigs :: "access_config list option"

record metadata_item =
  item_key :: "string option"
  item_value :: "string option"

record gce_instance =
  gce_name :: "string option"
  gce_creationTimestamp :: "string option"
  gce_status :: "string option"
  networkInterfaces :: "network_interface list option"
  metadata_items :: "metadata_item list"

text \<open>
  The two nested loops \<open>ip = access_config.get("natIP")\<close>: every access config
  assigns \<open>ip\<close>. Iterating a missing list is a \<open>TypeError\<close>.
\<close>

fun scan_access_configs :: "access_config list \<Rightarrow> string option \<Rightarrow> string option" where
  "scan_access_configs [] ip = ip"
| "scan_access_configs (c # cs) ip = scan_access_configs cs (natIP c)"

fun scan_network_interfaces :: "network_interface list \<Rightarrow> string option \<Rightarrow> error + string option" where
  "scan_network_interfaces [] ip = Inr ip"
| "scan_network_interfaces (n # ns) ip =
     (case accessConfigs n of
        None \<Rightarrow> Inl TypeError
      | Some cs \<Rightarrow> scan_network_interfaces ns (scan_access_configs cs ip))"

text \<open>The metadata loop; \<open>metadata["key"]\<close> on an item without the key is a \<open>KeyError\<close>.
  (\<open>metadata_items\<close> is \<open>gce_instance.get("metadata", {}).get("items", [])\<close>.)\<close>

fun scan_metadata :: "metadata_item list \<Rightarrow> instance_obj \<Rightarrow> error + instance_obj" where
  "scan_metadata [] self = Inr self"
| "scan_metadata (m # ms) self =
     (case item_key m of
        None \<Rightarrow> Inl (KeyError ''key'')
      | Some k \<Rightarrow>
          (case item_value m of
             None \<Rightarrow> Inl (KeyError ''value'')
           | Some v \<Rightarrow>
               if k = INS_KEY_DISPLAY then scan_metadata ms (self\<lparr>ins_display := Some v\<rparr>)
               else if k = INS_KEY_AVD_TYPE then scan_metadata ms (self\<lparr>ins_avd_type := Some v\<rparr>)
               else if k = INS_KEY_AVD_FLAVOR then scan_metadata ms (self\<lparr>ins_avd_flavor := Some v\<rparr>)
               else scan_metadata ms self))"

text \<open>
  The branch \<open>if ip:\<close> of \<open>_ProcessGceInstance\<close>, with the ports the lookup returned.
  \<open>if self._adb_port:\<close> is Python's truth test: a port that is \<open>None\<close> or \<open>0\<close> fails it.
\<close>

definition set_tunnel_fields :: "string \<Rightarrow> ForwardedPorts \<Rightarrow> instance_obj \<Rightarrow> instance_obj" where
  "set_tunnel_fields ip forwarded_ports self =
     (let self = self\<lparr>ins_ip := Some ip,
                      ins_adb_port := adb_port forwarded_ports,
                      ins_vnc_port := vnc_port forwarded_ports\<rparr>;
          disconnected = self\<lparr>ins_ssh_tunnel_is_connected := Some False,
                   ins_fullname := Some (FULL_NAME_STRING ''not connected'' (fmt_s (ins_name self)))\<rparr>
      in case ins_adb_port self of
           None \<Rightarrow> disconnected
         | Some p \<Rightarrow>
             if p \<noteq> 0
             then self\<lparr>ins_ssh_tunnel_is_connected := Some True,
                       ins_fullname := Some (FULL_NAME_STRING (''127.0.0.1:'' @ show_nat p)
                                                              (fmt_s (ins_name self)))\<rparr>
             else disconnected)"

text \<open>\<open>_ProcessGceInstance\<close>; \<open>if ip:\<close> fails for \<open>None\<close> and for the empty string.\<close>

definition ProcessGceInstance :: "string \<Rightarrow> gce_instance \<Rightarrow> instance_obj \<Rightarrow> error + instance_obj" where
  "ProcessGceInstance process_output gce self =
     (let self = self\<lparr>ins_name := gce_name gce,
                      ins_createtime := gce_creationTimestamp gce,
                      ins_status := gce_status gce\<rparr>
      in case networkInterfaces gce of
           None \<Rightarrow> Inl TypeError
         | Some nis \<Rightarrow>
             (case scan_network_interfaces nis None of
                Inl e \<Rightarrow> Inl e
              | Inr None \<Rightarrow> scan_metadata (metadata_items gce) self
              | Inr (Some ip) \<Rightarrow>
                  if ip \<noteq> []
                  then (case GetAdbVncPortFromSSHTunnel ip process_output of
                          Inl e \<Rightarrow> Inl e
                        | Inr forwarded_ports \<Rightarrow>
                            scan_metadata (metadata_items gce)
                              (set_tunnel_fields ip forwarded_ports self))
                  else scan_metadata (metadata_items gce) self))"

text \<open>\<open>RemoteInstance(gce_instance)\<close>: the constructor.\<close>

definition RemoteInstance :: "string \<Rightarrow> gce_instance \<Rightarrow> error + instance_obj" where
  "RemoteInstance process_output gce =
     (case ProcessGceInstance process_output gce Instance of
        Inl e \<Rightarrow> Inl e
      | Inr self \<Rightarrow> Inr (self\<lparr>ins_is_local := Some False\<rparr>))"

subsection \<open>The local instance\<close>

text \<open>The body of the loop of \<open>LocalInstance.__new__\<close> once a line has matched.\<close>

definition local_instance_of :: "groups \<Rightarrow> error + instance_obj" where
  "local_instance_of g =
     (case g ''date_str'' of
        None \<Rightarrow> Inl AttributeError
      | Some d \<Rightarrow>
          Inr (Instance\<lparr>
            ins_name := Some LOCAL_INS_NAME,
            ins_fullname := Some (FULL_NAME_STRING (''127.0.0.1:'' @ show_nat DEFAULT_ADB_PORT)
                                                   LOCAL_INS_NAME),
            ins_createtime := Some (strip d),
            ins_avd_type := Some TYPE_CF,
            ins_ip := Some ''127.0.0.1'',
            ins_status := Some INS_STATUS_RUNNING,
            ins_adb_port := Some DEFAULT_ADB_PORT,
            ins_vnc_port := Some DEFAULT_VNC_PORT,
            ins_display := Some (fmt_s (g ''x_res'') @ ''x'' @ fmt_s (g ''y_res'')
                                 @ '' ('' @ fmt_s (g ''dpi'') @ '')''),
            ins_is_local := Some True,
            ins_ssh_tunnel_is_connected := Some True\<rparr>))"

text \<open>
  \<open>LocalInstance()\<close>. The first argument is the answer of
  \<open>utils.IsSupportedPlatform()\<close>, the second the output of \<open>ps -eo lstart,cmd\<close>.
  The result \<open>Inr None\<close> is Python's \<open>None\<close>: no instance.
\<close>

definition LocalInstance :: "bool \<Rightarrow> string \<Rightarrow> error + instance_obj option" where
  "LocalInstance supported process_output =
     (if \<not> supported then Inr None
      else case first_match RE_LAUNCH_CVD (splitlines process_output) of
             None \<Rightarrow> Inr None
           | Some g \<Rightarrow> (case local_instance_of g of Inl e \<Rightarrow> Inl e | Inr i \<Rightarrow> Inr (Some i)))"

section \<open>Creating and deleting the local instance\<close>

subsection \<open>The host: what the code asks of its environment\<close>

text \<open>
  The lifecycle code reads the environment, the file system and the user's answer, and
  runs shell commands. The record \<open>host\<close> holds the answer to each of these requests.
  \<^item> \<open>image_artifacts_error dir\<close>: the message of the \<open>GetLocalImageError\<close> that
    \<open>create_common.VerifyLocalImageArtifactsExist(dir)\<close> raises, \<open>None\<close> when it returns
    (the function is not among the sources);
  \<^item> \<open>android_host_out\<close>: \<open>os.environ.get("ANDROID_HOST_OUT")\<close>;
  \<^item> \<open>path_exists\<close>: \<open>os.path.exists\<close>;
  \<^item> \<open>is_command_running\<close>: \<open>utils.IsCommandRunning\<close>;
  \<^item> \<open>user_answer_yes\<close>: \<open>utils.GetUserAnswerYes\<close>;
  \<^item> \<open>add_user_groups cmd\<close>: \<open>utils.AddUserGroupsToCmd(cmd, constants.LIST_CF_USER_GROUPS)\<close>;
  \<^item> \<open>run_shell cmd\<close>: what running \<open>cmd\<close> through the shell gives, its output when
    the exit status is zero and the message of the \<open>CalledProcessError\<close> otherwise.
\<close>

datatype shell_result = Completed string | Failed string

record host =
  image_artifacts_error :: "string \<Rightarrow> string option"
  android_host_out :: "string option"
  path_exists :: "string \<Rightarrow> bool"
  is_command_running :: "string \<Rightarrow> bool"
  user_answer_yes :: "string \<Rightarrow> bool"
  add_user_groups :: "string \<Rightarrow> string"
  run_shell :: "string \<Rightarrow> shell_result"

text \<open>
  What the code does to its environment, in order. \<open>IsCommandRunning\<close>, \<open>CheckCall\<close>
  and \<open>CheckOutput\<close> start a subprocess; the flag of \<open>CheckCall\<close> tells that both
  output streams go to \<open>os.devnull\<close>. Log records and the timing lines of the
  \<open>TimeExecute\<close> decorator are not events.
\<close>

datatype event =
    Print string
  | IsCommandRunning string
  | Prompt string
  | CheckCall string bool
  | CheckOutput string
  | LaunchVNC

fun is_subprocess :: "event \<Rightarrow> bool" where
  "is_subprocess (IsCommandRunning c) = True"
| "is_subprocess (CheckCall c quiet) = True"
| "is_subprocess (CheckOutput c) = True"
| "is_subprocess e = False"

text \<open>
  How a call ends: it returns a value, raises, or ends the process through
  \<open>sys.exit\<close> with the given status. A run is the events so far and the way it ended.
\<close>

datatype 'a outcome = Return 'a | Raise error | Exit nat

type_synonym 'a run = "event list \<times> 'a outcome"

definition and_then :: "'a run \<Rightarrow> ('a \<Rightarrow> 'b run) \<Rightarrow> 'b run" where
  "and_then m f =
     (case m of
        (t, Return x) \<Rightarrow> (case f x of (t', r) \<Rightarrow> (t @ t', r))
      | (t, Raise e) \<Rightarrow> (t, Raise e)
      | (t, Exit n) \<Rightarrow> (t, Exit n))"

definition emit :: "event \<Rightarrow> unit run" where
  "emit e = ([e], Return ())"

subsection \<open>Paths\<close>

text \<open>\<open>os.path.join\<close> with two components, and with three as the code calls it.\<close>

definition path_join :: "string \<Rightarrow> string \<Rightarrow> string" where
  "path_join a b =
     (if take 1 b = ''/'' then b
      else if a = [] \<or> last a = CHR ''/'' then a @ b
      else a @ ''/'' @ b)"

definition path_join3 :: "string \<Rightarrow> string \<Rightarrow> string \<Rightarrow> string" where
  "path_join3 a b c = path_join (path_join a b) c"

text \<open>\<open>os.path.dirname\<close>: up to the last slash, without trailing slashes unless the
  head is nothing but slashes.\<close>

definition dirname :: "string \<Rightarrow> string" where
  "dirname p =
     (let head = rev (dropWhile (\<lambda>c. c \<noteq> CHR ''/'') (rev p))
      in if head \<noteq> [] \<and> \<not> list_all (\<lambda>c. c = CHR ''/'') head
         then rev (dropWhile (\<lambda>c. c = CHR ''/'') (rev head))
         else head)"

subsection \<open>\<open>create/local_image_local_instance.py\<close>\<close>

definition CMD_LAUNCH_CVD_ARGS ::
  "string \<Rightarrow> string \<Rightarrow> string \<Rightarrow> string \<Rightarrow> string \<Rightarrow> string \<Rightarrow> string \<Rightarrow> string \<Rightarrow> string" where
  "CMD_LAUNCH_CVD_ARGS cpu x_res y_res dpi memory disk system_image_dir port =
     '' --daemon --cpus '' @ cpu @ '' --x_res '' @ x_res @ '' --y_res '' @ y_res
     @ '' --dpi '' @ dpi @ '' --memory_mb '' @ memory @ '' --blank_data_image_mb '' @ disk
     @ '' --data_policy always_create --system_image_dir '' @ system_image_dir
     @ '' --vnc_server_port '' @ port"

definition CONFIRM_RELAUNCH :: string where
  "CONFIRM_RELAUNCH =
     [CHR 0x0A] @ ''Cuttlefish AVD is already running. '' @ [CHR 0x0A]
     @ ''Enter 'y' to terminate current instance and launch a new ''
     @ ''instance, enter anything else to exit out [y]: ''"

definition DISCLAIMER :: string where
  "DISCLAIMER =
     ''(Disclaimer: Local cuttlefish instance is not a fully supported'' @ [CHR 0x0A]
     @ ''runtime configuration, fixing breakages is on a best effort SLO.)'' @ [CHR 0x0A]"

definition NO_LAUNCH_CVD :: string where
  "NO_LAUNCH_CVD =
     ''No launch_cvd found. Please run '' @ [CHR 0x22] @ ''m launch_cvd'' @ [CHR 0x22] @ '' first''"

record avd_spec =
  local_image_dir :: string
  hw_property :: "string \<rightharpoonup> string"
  autoconnect :: bool

text \<open>\<open>GetImageArtifactsPath\<close>. \<open>os.path.join(None, ...)\<close>, when the environment
  variable is not set, raises an \<open>AttributeError\<close>.\<close>

definition GetImageArtifactsPath :: "host \<Rightarrow> avd_spec \<Rightarrow> (string \<times> string) run" where
  "GetImageArtifactsPath h spec =
     (case image_artifacts_error h (local_image_dir spec) of
        Some msg \<Rightarrow> ([], Raise (GetLocalImageError msg))
      | None \<Rightarrow>
          (case android_host_out h of
             None \<Rightarrow> ([], Raise AttributeError)
           | Some out_dir \<Rightarrow>
               let launch_cvd_path = path_join3 out_dir ''bin'' CMD_LAUNCH_CVD
               in if \<not> path_exists h launch_cvd_path
                  then ([], Raise (GetCvdLocalHostPackageError NO_LAUNCH_CVD))
                  else ([], Return (local_image_dir spec, launch_cvd_path))))"

text \<open>\<open>hw_property[key]\<close>: a missing key is a \<open>KeyError\<close>.\<close>

definition hw_lookup :: "(string \<rightharpoonup> string) \<Rightarrow> string \<Rightarrow> string run" where
  "hw_lookup hw k = (case hw k of None \<Rightarrow> ([], Raise (KeyError k)) | Some v \<Rightarrow> ([], Return v))"

definition PrepareLaunchCVDCmd ::
  "host \<Rightarrow> string \<Rightarrow> (string \<rightharpoonup> string) \<Rightarrow> string \<Rightarrow> string run" where
  "PrepareLaunchCVDCmd h launch_cvd_path hw system_image_dir =
     and_then (hw_lookup hw ''cpu'') (\<lambda>cpu.
     and_then (hw_lookup hw ''x_res'') (\<lambda>x_res.
     and_then (hw_lookup hw ''y_res'') (\<lambda>y_res.
     and_then (hw_lookup hw ''dpi'') (\<lambda>dpi.
     and_then (hw_lookup hw ''memory'') (\<lambda>memory.
     and_then (hw_lookup hw ''disk'') (\<lambda>disk.
       ([], Return (add_user_groups h
              (launch_cvd_path @ CMD_LAUNCH_CVD_ARGS cpu x_res y_res dpi memory disk
                 system_image_dir (show_nat DEFAULT_VNC_PORT))))))))))"

text \<open>The two subprocess calls of \<open>CheckLaunchCVD\<close>: \<open>check_call\<close> of the stop
  command with both streams to \<open>os.devnull\<close>, and \<open>check_output\<close> of the launch command,
  whose failure is raised as \<open>LaunchCVDFail\<close>.\<close>

definition stop_cvd :: "host \<Rightarrow> string \<Rightarrow> unit run" where
  "stop_cvd h c =
     ([CheckCall c True],
      case run_shell h c of Completed out \<Rightarrow> Return () | Failed msg \<Rightarrow> Raise (CalledProcessError msg))"

definition launch_cvd :: "host \<Rightarrow> string \<Rightarrow> unit run" where
  "launch_cvd h cmd =
     ([CheckOutput cmd],
      case run_shell h cmd of
        Completed out \<Rightarrow> Return ()
      | Failed msg \<Rightarrow>
          Raise (LaunchCVDFail (''Can't launch cuttlefish AVD.'' @ msg @ ''. '' @ [CHR 0x0A]
                                @ ''For more detail: ~/cuttlefish_runtime/launcher.log'')))"

text \<open>\<open>CheckLaunchCVD(cmd, host_pack_dir)\<close>. \<open>sys.exit()\<close> without an argument ends the
  process with status 0.\<close>

definition CheckLaunchCVD :: "host \<Rightarrow> string \<Rightarrow> string \<Rightarrow> unit run" where
  "CheckLaunchCVD h cmd host_pack_dir =
     and_then (emit (IsCommandRunning CMD_LAUNCH_CVD)) (\<lambda>_.
     and_then
       (if is_command_running h CMD_LAUNCH_CVD
        then and_then (emit (Prompt CONFIRM_RELAUNCH)) (\<lambda>_.
               if user_answer_yes h CONFIRM_RELAUNCH
               then stop_cvd h (add_user_groups h (path_join host_pack_dir CMD_STOP_CVD))
               else ([Print ''Exiting out''], Exit 0))
        else ([], Return ()))
       (\<lambda>_. launch_cvd h cmd))"

text \<open>
  Modelled from the spec: the module \<open>acloud.public.report\<close> is not among the sources.
  A report is the spec's structured result: a command name, a status and a data
  mapping from a key to the list of the values added under it.
\<close>

datatype jvalue = JStr string | JNum nat | JDict "(string \<times> jvalue) list"

record report =
  rep_command :: string
  rep_status :: string
  rep_data :: "(string \<times> jvalue list) list"

definition Report :: "string \<Rightarrow> report" where
  "Report cmd = \<lparr>rep_command = cmd, rep_status = ''UNKNOWN'', rep_data = []\<rparr>"

definition SetStatus :: "string \<Rightarrow> report \<Rightarrow> report" where
  "SetStatus s r = r\<lparr>rep_status := s\<rparr>"

definition AddData :: "string \<Rightarrow> jvalue \<Rightarrow> report \<Rightarrow> report" where
  "AddData k v r =
     r\<lparr>rep_data :=
         (case map_of (rep_data r) k of
            None \<Rightarrow> rep_data r @ [(k, [v])]
          | Some vs \<Rightarrow>
              map (\<lambda>(k', vs'). if k' = k then (k', vs' @ [v]) else (k', vs')) (rep_data r))\<rparr>"

text \<open>\<open>_CreateAVD(avd_spec)\<close>.\<close>

definition CreateAVD :: "host \<Rightarrow> avd_spec \<Rightarrow> report run" where
  "CreateAVD h spec =
     and_then (emit (Print DISCLAIMER)) (\<lambda>_.
     and_then (GetImageArtifactsPath h spec) (\<lambda>(local_image_path, launch_cvd_path).
     and_then (PrepareLaunchCVDCmd h launch_cvd_path (hw_property spec) local_image_path) (\<lambda>cmd.
     and_then (CheckLaunchCVD h cmd (dirname launch_cvd_path)) (\<lambda>_.
       let result_report =
             AddData ''devices''
               (JDict [(''adb_port'', JNum DEFAULT_ADB_PORT), (''vnc_port'', JNum DEFAULT_VNC_PORT)])
               (SetStatus ''SUCCESS'' (Report LOCAL_INS_NAME))
       in and_then (if autoconnect spec then emit LaunchVNC else ([], Return ()))
            (\<lambda>_. ([], Return result_report))))))"

subsection \<open>Deleting the local instance\<close>

text \<open>
  Modelled from the spec: \<open>delete.DeleteLocalInstance\<close> is not among the sources, only
  its test is. The spec: build the stop command from the path of the stop binary,
  execute it, and report the deletion of exactly one item named "local-instance" of
  type "instance"; a failure propagates to the caller. The path is the result of the
  stop-path resolution (\<open>_GetStopCvd\<close>, which the test replaces by the empty string),
  the command is wrapped and run as the stop command of the create path is.
\<close>

definition DeleteLocalInstance :: "host \<Rightarrow> string \<Rightarrow> report run" where
  "DeleteLocalInstance h stop_cvd_path =
     and_then (stop_cvd h (add_user_groups h stop_cvd_path)) (\<lambda>_.
       ([], Return (AddData ''deleted''
                      (JDict [(''type'', JStr ''instance''), (''name'', JStr LOCAL_INS_NAME)])
                      (SetStatus ''SUCCESS'' (Report ''delete'')))))"

section \<open>Notions used to state the properties\<close>

text \<open>All access configs of a description, in the order the two loops visit them.\<close>

definition all_access_configs :: "network_interface list \<Rightarrow> access_config list" where
  "all_access_configs nis =
     concat (map (\<lambda>n. case accessConfigs n of None \<Rightarrow> [] | Some cs \<Rightarrow> cs) nis)"

text \<open>The address of the last access config visited, whether it has one or not.\<close>

definition last_natIP :: "network_interface list \<Rightarrow> string option" where
  "last_natIP nis =
     (case all_access_configs nis of [] \<Rightarrow> None | c # cs \<Rightarrow> natIP (last (c # cs)))"

text \<open>In the words of the specification: the last address among those that are present.\<close>

definition last_non_null_natIP :: "network_interface list \<Rightarrow> string option" where
  "last_non_null_natIP nis =
     (case filter (\<lambda>x. x \<noteq> None) (map natIP (all_access_configs nis)) of
        [] \<Rightarrow> None
      | x # xs \<Rightarrow> last (x # xs))"

text \<open>The two groups the tunnel lookup reads, and the seven of the launch pattern.\<close>

definition port_groups :: "groups \<Rightarrow> string option \<times> string option" where
  "port_groups g = (g RE_GROUP_VNC, g RE_GROUP_ADB)"

definition launch_groups :: "groups \<Rightarrow> string option list" where
  "launch_groups g =
     map g [''date_str'', ''cpu'', ''x_res'', ''y_res'', ''dpi'', ''memory'', ''disk'']"

text \<open>The serial shown in the full name of a remote instance, by its ADB port.\<close>

definition device_serial :: "nat option \<Rightarrow> string" where
  "device_serial port =
     (case port of
        None \<Rightarrow> ''not connected''
      | Some p \<Rightarrow> if p \<noteq> 0 then ''127.0.0.1:'' @ show_nat p else ''not connected'')"

text \<open>
  What a pattern can read, without the order in which the machine tries: the strings
  a pattern matches as a whole, and the strings a stack of frames can read a prefix
  of. (\<open>^\<close> is taken to match anywhere: this only enlarges the set.)
\<close>

primrec matches :: "re \<Rightarrow> string \<Rightarrow> bool" where
  "matches (One c) u = (\<exists>x. u = [x] \<and> accepts c x)"
| "matches (Lit l) u = (u = l)"
| "matches (Seq r1 r2) u = (\<exists>v w. u = v @ w \<and> matches r1 v \<and> matches r2 w)"
| "matches (Star r) u = (\<exists>vs. u = concat vs \<and> list_all (matches r) vs)"
| "matches (Opt r) u = (u = [] \<or> matches r u)"
| "matches (Grp n r) u = matches r u"
| "matches Bol u = (u = [])"

fun stack_matches :: "frame list \<Rightarrow> string \<Rightarrow> bool" where
  "stack_matches [] u = (u = [])"
| "stack_matches (R r # k) u = (\<exists>v w. u = v @ w \<and> matches r v \<and> stack_matches k w)"
| "stack_matches (EndGrp n s0 # k) u = stack_matches k u"
| "stack_matches (Chk r n # k) u = (\<exists>v w. u = v @ w \<and> matches (Star r) v \<and> stack_matches k w)"

definition reads :: "frame list \<Rightarrow> string \<Rightarrow> bool" where
  "reads k s = (\<exists>u t. s = u @ t \<and> stack_matches k u)"

text \<open>
  The text \<open>-L\s\d+:127.0.0.1:port\<close>, as the pattern reads it (each dot of the loopback
  address is any character but the newline), starts the string; a property holds of
  some suffix of a line; a forwarding clause to port \<open>p\<close> starts somewhere in the line
  and one to port \<open>q\<close> starts after its first character.
\<close>

fun wild_prefix :: "char option list \<Rightarrow> string \<Rightarrow> bool" where
  "wild_prefix [] s = True"
| "wild_prefix (p # ps) [] = False"
| "wild_prefix (p # ps) (x # xs) =
     ((case p of None \<Rightarrow> accepts Dot x | Some c \<Rightarrow> x = c) \<and> wild_prefix ps xs)"

definition loopback_to :: "string \<Rightarrow> char option list" where
  "loopback_to port =
     map Some '':127'' @ [None] @ map Some ''0'' @ [None] @ map Some ''0'' @ [None]
     @ map Some (''1:'' @ port)"

definition forward_here :: "string \<Rightarrow> string \<Rightarrow> bool" where
  "forward_here port s =
     (case s of
        a # b # w # d # rest \<Rightarrow>
          a = CHR ''-'' \<and> b = CHR ''L'' \<and> accepts Space w \<and> accepts Digit d
          \<and> wild_prefix (loopback_to port) (dropWhile (accepts Digit) rest)
      | _ \<Rightarrow> False)"

fun somewhere :: "(string \<Rightarrow> bool) \<Rightarrow> string \<Rightarrow> bool" where
  "somewhere P [] = P []"
| "somewhere P (x # xs) = (P (x # xs) \<or> somewhere P xs)"

definition clause_before :: "string \<Rightarrow> string \<Rightarrow> string \<Rightarrow> bool" where
  "clause_before p q line =
     somewhere (\<lambda>s. forward_here p s \<and> somewhere (forward_here q) (tl s)) line"

text \<open>
  Notions for launch command lines.
\<close>

text \<open>The text of a flag followed by a white-space character and a digit starts the string.\<close>

definition flag_here :: "string \<Rightarrow> string \<Rightarrow> bool" where
  "flag_here f s =
     (case strip_prefix f s of
        Some (w # d # r) \<Rightarrow> accepts Space w \<and> accepts Digit d
      | _ \<Rightarrow> False)"

text \<open>A literal text starts the string.\<close>

definition lit_here :: "string \<Rightarrow> string \<Rightarrow> bool" where
  "lit_here l s = (strip_prefix l s \<noteq> None)"

text \<open>The part of one optional flag pattern after its leading \<open>.*\<close>, and the stack of the whole part.\<close>

definition flag_tail :: "string \<Rightarrow> string \<Rightarrow> re" where
  "flag_tail f n = seqs [Star (One Space), Lit f, One Space, Grp n (plus (One Digit))]"

definition flag_body :: "string \<Rightarrow> string \<Rightarrow> frame list \<Rightarrow> frame list" where
  "flag_body f n K = R (Star (One Dot)) # R (flag_tail f n) # K"

text \<open>How a launch command line writes a flag whose pattern text is \<open>f\<close>: with one more dash, the
  value and a space, as \<open>_CMD_LAUNCH_CVD_ARGS\<close> does; nothing when the flag is omitted.\<close>

definition flag_text :: "string \<Rightarrow> string option \<Rightarrow> string" where
  "flag_text f v = (case v of None \<Rightarrow> [] | Some ds \<Rightarrow> CHR ''-'' # f @ '' '' @ ds @ '' '')"

text \<open>A flag value, when present, is a non-empty string of digits.\<close>

definition digits_opt :: "string option \<Rightarrow> bool" where
  "digits_opt v = (case v of None \<Rightarrow> True | Some ds \<Rightarrow> ds \<noteq> [] \<and> list_all (accepts Digit) ds)"

text \<open>The groups after an optional part: unchanged when the part was skipped.\<close>

definition set_group :: "string \<Rightarrow> string option \<Rightarrow> groups \<Rightarrow> groups" where
  "set_group n v g = (case v of None \<Rightarrow> g | Some ds \<Rightarrow> g(n \<mapsto> ds))"

text \<open>The launch invocation, one round of \<open>(.*launch_cvd --daemon )+\<close>, and the group of the start time.\<close>

definition LAUNCH :: string where
  "LAUNCH = ''launch_cvd --daemon ''"

definition launch_round :: re where
  "launch_round = Seq (Star (One Dot)) (Lit LAUNCH)"

definition date_group :: re where
  "date_group = Grp ''date_str'' (Seq Bol (plus (One (NotCh CHR ''/''))))"

text \<open>The texts of the six flags in the launch pattern, the arguments of a launch command
  line with any of them omitted, and a rest of the line that holds neither a flag with a
  value nor the launch invocation again.\<close>

definition launch_flags :: "string list" where
  "launch_flags = [''-cpus'', ''-x_res'', ''-y_res'', ''-dpi'', ''-memory_mb'', ''-blank_data_image_mb'']"

definition launch_args ::
  "string option \<Rightarrow> string option \<Rightarrow> string option \<Rightarrow> string option \<Rightarrow> string option
   \<Rightarrow> string option \<Rightarrow> string" where
  "launch_args c x y d m k =
     flag_text ''-cpus'' c @ flag_text ''-x_res'' x @ flag_text ''-y_res'' y
     @ flag_text ''-dpi'' d @ flag_text ''-memory_mb'' m @ flag_text ''-blank_data_image_mb'' k"

definition plain_tail :: "string \<Rightarrow> bool" where
  "plain_tail T =
     (\<not> somewhere (lit_here LAUNCH) T \<and> list_all (\<lambda>f. \<not> somewhere (flag_here f) T) launch_flags)"

section \<open>Example inputs\<close>

text \<open>A line of \<open>ps -eo lstart,cmd\<close> for a running local instance, and a process table
  holding the header line and that line.\<close>

abbreviation (input) e2e_line :: string where
  "e2e_line \<equiv> ''Mon Jan 1 00:00:00 2024 /home/user/bin/launch_cvd --daemon --cpus 2 --x_res 720 --y_res 1280 --dpi 320 --memory_mb 2048 --blank_data_image_mb 4096 --data_policy always_create --system_image_dir /home/user/img --vnc_server_port 6444''"

abbreviation (input) e2e_table :: string where
  "e2e_table \<equiv> ''                 STARTED CMD'' @ [CHR 0x0A] @ e2e_line @ [CHR 0x0A]"



text \<open>An SSH tunnel to \<open>35.1.2.3\<close> as it appears in the process table, the same with
  the ADB clause listening on port 0, and a tunnel to the address \<open>35.1.2.34\<close>.\<close>

abbreviation (input) tunnel_line :: string where
  "tunnel_line \<equiv> ''ssh -L 6444:127.0.0.1:6444 -L 6520:127.0.0.1:6520 -N -f user@35.1.2.3''"

abbreviation (input) tunnel_line_port_zero :: string where
  "tunnel_line_port_zero \<equiv> ''ssh -L 6444:127.0.0.1:6444 -L 0:127.0.0.1:6520 -N -f user@35.1.2.3''"

abbreviation (input) tunnel_line_other_ip :: string where
  "tunnel_line_other_ip \<equiv> ''ssh -L 6444:127.0.0.1:6444 -L 6520:127.0.0.1:6520 -N -f user@35.1.2.34''"

text \<open>The tunnel to \<open>35.1.2.3\<close> with the ADB clause before the VNC clause.\<close>

abbreviation (input) tunnel_line_reversed :: string where
  "tunnel_line_reversed \<equiv> ''ssh -L 6520:127.0.0.1:6520 -L 6444:127.0.0.1:6444 -N -f user@35.1.2.3''"

text \<open>Instance descriptions: one access config with an address; no network interface;
  an access config with an address followed by one without; two interfaces.\<close>

abbreviation (input) gce_one :: gce_instance where
  "gce_one \<equiv> \<lparr>gce_name = Some ''ins-1'', gce_creationTimestamp = None,
              gce_status = Some ''RUNNING'',
              networkInterfaces = Some [\<lparr>accessConfigs = Some [\<lparr>natIP = Some ''35.1.2.3''\<rparr>]\<rparr>],
              metadata_items = []\<rparr>"

abbreviation (input) gce_no_interface :: gce_instance where
  "gce_no_interface \<equiv> \<lparr>gce_name = Some ''ins-1'', gce_creationTimestamp = None,
              gce_status = Some ''RUNNING'', networkInterfaces = Some [], metadata_items = []\<rparr>"

abbreviation (input) nis_null_last :: "network_interface list" where
  "nis_null_last \<equiv> [\<lparr>accessConfigs = Some [\<lparr>natIP = Some ''35.1.2.3''\<rparr>, \<lparr>natIP = None\<rparr>]\<rparr>]"

abbreviation (input) nis_two :: "network_interface list" where
  "nis_two \<equiv> [\<lparr>accessConfigs = Some [\<lparr>natIP = Some ''10.0.0.5''\<rparr>]\<rparr>,
             \<lparr>accessConfigs = Some [\<lparr>natIP = None\<rparr>, \<lparr>natIP = Some ''35.1.2.3''\<rparr>]\<rparr>]"

text \<open>Hosts: a launch_cvd process is running and the user answers as given; the
  launch package is missing; \<open>ANDROID_HOST_OUT\<close> is not set and there is no launch package;
  the image directory is incomplete. A creation request.\<close>

abbreviation (input) host_running :: "bool \<Rightarrow> host" where
  "host_running answer \<equiv>
     \<lparr>image_artifacts_error = (\<lambda>d. None), android_host_out = Some ''/out/host'',
      path_exists = (\<lambda>p. True), is_command_running = (\<lambda>c. True),
      user_answer_yes = (\<lambda>p. answer), add_user_groups = (\<lambda>c. ''sg kvm -c '' @ c),
      run_shell = (\<lambda>c. Completed [])\<rparr>"

abbreviation (input) host_no_package :: host where
  "host_no_package \<equiv>
     \<lparr>image_artifacts_error = (\<lambda>d. None), android_host_out = Some ''/out/host'',
      path_exists = (\<lambda>p. False), is_command_running = (\<lambda>c. False),
      user_answer_yes = (\<lambda>p. False), add_user_groups = (\<lambda>c. ''sg kvm -c '' @ c),
      run_shell = (\<lambda>c. Completed [])\<rparr>"

abbreviation (input) host_no_host_out :: host where
  "host_no_host_out \<equiv>
     \<lparr>image_artifacts_error = (\<lambda>d. None), android_host_out = None,
      path_exists = (\<lambda>p. False), is_command_running = (\<lambda>c. False),
      user_answer_yes = (\<lambda>p. False), add_user_groups = (\<lambda>c. ''sg kvm -c '' @ c),
      run_shell = (\<lambda>c. Completed [])\<rparr>"

abbreviation (input) host_no_image :: host where
  "host_no_image \<equiv>
     \<lparr>image_artifacts_error = (\<lambda>d. Some (''No image found in '' @ d)),
      android_host_out = Some ''/out/host'',
      path_exists = (\<lambda>p. True), is_command_running = (\<lambda>c. False),
      user_answer_yes = (\<lambda>p. False), add_user_groups = (\<lambda>c. ''sg kvm -c '' @ c),
      run_shell = (\<lambda>c. Completed [])\<rparr>"

abbreviation (input) spec_example :: avd_spec where
  "spec_example \<equiv>
     \<lparr>local_image_dir = ''/img'',
      hw_property = [''cpu'' \<mapsto> ''2'', ''x_res'' \<mapsto> ''720'', ''y_res'' \<mapsto> ''1280'',
                     ''dpi'' \<mapsto> ''320'', ''memory'' \<mapsto> ''2048'', ''disk'' \<mapsto> ''4096''],
      autoconnect = False\<rparr>"

section \<open>What the machine accepts\<close>

text \<open>A run that succeeds has read a prefix that the stack matches.\<close>

lemma strip_prefix_Some: "strip_prefix l s = Some s' \<longleftrightarrow> s = l @ s'"
  by (induction l s rule: strip_prefix.induct) auto

lemma matches_star_nil: "matches (Star r) []"
  by (auto intro: exI [of _ "[]"])

declare matches.simps(4) [simp del]

lemmas matches_star_def = matches.simps(4)

lemma matches_star_step: "matches r v \<Longrightarrow> matches (Star r) w \<Longrightarrow> matches (Star r) (v @ w)"
proof -
  assume v: "matches r v" and "matches (Star r) w"
  then obtain vs where "w = concat vs" "list_all (matches r) vs"
    unfolding matches_star_def by auto
  with v have "v @ w = concat (v # vs) \<and> list_all (matches r) (v # vs)" by simp
  then show ?thesis unfolding matches_star_def by blast
qed

lemma readsI: "stack_matches k u \<Longrightarrow> reads k (u @ t)"
  unfolding reads_def by blast

lemma reads_R: "reads (R r # k) s \<longleftrightarrow> (\<exists>v s'. s = v @ s' \<and> matches r v \<and> reads k s')"
proof
  assume "reads (R r # k) s"
  then obtain u t v w where "s = u @ t" "u = v @ w" "matches r v" "stack_matches k w"
    unfolding reads_def by auto
  then have "s = v @ (w @ t) \<and> matches r v \<and> reads k (w @ t)"
    by (simp add: readsI)
  then show "\<exists>v s'. s = v @ s' \<and> matches r v \<and> reads k s'" by blast
next
  assume "\<exists>v s'. s = v @ s' \<and> matches r v \<and> reads k s'"
  then obtain v s' u t where "s = v @ s'" "matches r v" "s' = u @ t" "stack_matches k u"
    unfolding reads_def by auto
  then have "s = (v @ u) @ t \<and> stack_matches (R r # k) (v @ u)" by auto
  then show "reads (R r # k) s" unfolding reads_def by blast
qed

lemma reads_Chk: "reads (Chk r n # k) s \<longleftrightarrow> reads (R (Star r) # k) s"
  unfolding reads_def by simp

lemma reads_EndGrp: "reads (EndGrp n s0 # k) s \<longleftrightarrow> reads k s"
  unfolding reads_def by simp

lemma reads_Nil: "reads [] s"
  unfolding reads_def by simp

lemma run_sound: "run k b s g = Some g' \<Longrightarrow> reads k s"
proof (induction k b s g rule: run.induct)
  case (1 b s g)
  show ?case by (rule reads_Nil)
next
  case (2 c k b g)
  then show ?case by simp
next
  case (3 c k b x xs g)
  then have "accepts c x" "reads k xs" by (auto split: if_splits)
  then have "x # xs = [x] @ xs \<and> matches (One c) [x] \<and> reads k xs" by simp
  then show ?case unfolding reads_R by blast
next
  case (4 l k b s g)
  then obtain s' where s': "strip_prefix l s = Some s'" and "reads k s'"
    by (auto split: option.splits)
  then have "s = l @ s' \<and> matches (Lit l) l \<and> reads k s'" by (simp add: strip_prefix_Some)
  then show ?case unfolding reads_R by blast
next
  case (5 r1 r2 k b s g)
  then have "reads (R r1 # R r2 # k) s" by simp
  then obtain v s' w s'' where "s = v @ s'" "matches r1 v" "s' = w @ s''" "matches r2 w" "reads k s''"
    unfolding reads_R by blast
  then have "s = (v @ w) @ s'' \<and> matches (Seq r1 r2) (v @ w) \<and> reads k s''" by auto
  then show ?case unfolding reads_R by blast
next
  case (6 r k b s g)
  show ?case
  proof (cases "run (R r # Chk r (length s) # k) b s g")
    case None
    with 6 have "reads k s" by simp
    then have "s = [] @ s \<and> matches (Star r) [] \<and> reads k s" by (simp add: matches_star_nil)
    then show ?thesis unfolding reads_R by blast
  next
    case (Some a)
    with 6 have "reads (R r # Chk r (length s) # k) s" by simp
    then obtain v s' w s'' where "s = v @ s'" "matches r v" "s' = w @ s''" "matches (Star r) w" "reads k s''"
      unfolding reads_R reads_Chk by blast
    then have "s = (v @ w) @ s'' \<and> matches (Star r) (v @ w) \<and> reads k s''"
      using matches_star_step by auto
    then show ?thesis unfolding reads_R by blast
  qed
next
  case (7 r n k b s g)
  show ?case
  proof (cases "length s < n")
    case True
    with 7 show ?thesis by (simp add: reads_Chk)
  next
    case False
    with 7 have "reads k s" by simp
    then have "s = [] @ s \<and> matches (Star r) [] \<and> reads k s" by (simp add: matches_star_nil)
    then show ?thesis unfolding reads_Chk reads_R by blast
  qed
next
  case (8 r k b s g)
  show ?case
  proof (cases "run (R r # k) b s g")
    case None
    with 8 have "reads k s" by simp
    then have "s = [] @ s \<and> matches (Opt r) [] \<and> reads k s" by simp
    then show ?thesis unfolding reads_R by blast
  next
    case (Some a)
    with 8 have "reads (R r # k) s" by simp
    then show ?thesis unfolding reads_R by auto
  qed
next
  case (9 n r k b s g)
  then have "reads (R r # EndGrp n s # k) s" by simp
  then show ?case unfolding reads_R reads_EndGrp by auto
next
  case (10 n s0 k b s g)
  then show ?case by (simp add: reads_EndGrp fun_upd_def)
next
  case (11 k b s g)
  then have "reads k s" by (auto split: if_splits)
  then have "s = [] @ s \<and> matches Bol [] \<and> reads k s" by simp
  then show ?case unfolding reads_R by blast
qed


lemma somewhere_append: "P s \<Longrightarrow> somewhere P (a @ s)"
  by (induction a) (auto intro: somewhere.elims(3))

lemma somewhere_here: "P s \<Longrightarrow> somewhere P s"
  using somewhere_append [of P s "[]"] by simp

lemma matches_star_one: "matches (Star (One c)) v \<Longrightarrow> list_all (accepts c) v"
proof -
  assume "matches (Star (One c)) v"
  then obtain vs where v: "v = concat vs" and vs: "list_all (matches (One c)) vs"
    unfolding matches_star_def by blast
  from vs show ?thesis unfolding v
    by (induction vs) auto
qed

lemma dropWhile_run:
  "list_all P ds \<Longrightarrow> \<not> P x \<Longrightarrow> dropWhile P (ds @ x # r) = x # r"
  by (induction ds) auto

lemma wild_prefix_lit: "wild_prefix (map Some l @ qs) (l @ r) = wild_prefix qs r"
  by (induction l) auto

lemma wild_prefix_lit_end: "wild_prefix (map Some l) (l @ r)"
  using wild_prefix_lit [of l "[]" r] by simp

lemma clause_shape:
  assumes "matches (forward_clause grp port) c"
  shows "\<exists>pre body. c = pre @ body \<and> body \<noteq> [] \<and> (\<forall>rest. forward_here port (body @ rest))"
proof -
  from assms obtain p w sp d ds x1 x2 x3 where
    c: "c = p @ w @ ''-L'' @ [sp] @ ([d] @ ds) @ '':127'' @ [x1] @ ''0'' @ [x2] @ ''0'' @ [x3] @ ''1:'' @ port"
    and sp: "accepts Space sp" and d: "accepts Digit d" and ds: "matches (Star (One Digit)) ds"
    and x: "accepts Dot x1" "accepts Dot x2" "accepts Dot x3"
    unfolding forward_clause_def plus_def by (auto simp del: accepts.simps)
  let ?body = "''-L'' @ [sp] @ ([d] @ ds) @ '':127'' @ [x1] @ ''0'' @ [x2] @ ''0'' @ [x3] @ ''1:'' @ port"
  have "forward_here port (?body @ rest)" for rest
  proof -
    have dw: "dropWhile (accepts Digit) (ds @ CHR '':'' # r) = CHR '':'' # r" for r
      by (rule dropWhile_run [OF matches_star_one [OF ds]]) simp
    have wp: "wild_prefix (loopback_to port)
                (CHR '':'' # ''127'' @ [x1] @ ''0'' @ [x2] @ ''0'' @ [x3] @ (''1:'' @ port) @ rest)"
      using x wild_prefix_lit_end [of "''1:'' @ port" rest]
      by (simp add: loopback_to_def del: accepts.simps)
    from dw [of "''127'' @ [x1] @ ''0'' @ [x2] @ ''0'' @ [x3] @ (''1:'' @ port) @ rest"] wp sp d
    show ?thesis
      by (simp add: forward_here_def del: accepts.simps)
  qed
  then have "c = (p @ w) @ ?body \<and> ?body \<noteq> [] \<and> (\<forall>rest. forward_here port (?body @ rest))"
    using c by simp
  then show ?thesis by blast
qed

lemma tunnel_shape:
  assumes "reads [R (RE_SSH_TUNNEL_PATTERN g1 p1 g2 p2 ip)] line"
  shows "clause_before p1 p2 line"
proof -
  from assms obtain v1 v2 rest where line: "line = v1 @ v2 @ rest"
    and m1: "matches (forward_clause g1 p1) v1" and m2: "matches (forward_clause g2 p2) v2"
    unfolding reads_R RE_SSH_TUNNEL_PATTERN_def by (auto simp del: accepts.simps)
  from clause_shape [OF m1] obtain pre1 body1 where v1: "v1 = pre1 @ body1" "body1 \<noteq> []"
    and f1: "\<And>r. forward_here p1 (body1 @ r)" by blast
  from clause_shape [OF m2] obtain pre2 body2 where v2: "v2 = pre2 @ body2"
    and f2: "\<And>r. forward_here p2 (body2 @ r)" by blast
  have "somewhere (forward_here p2) ((tl body1 @ pre2) @ body2 @ rest)"
    by (rule somewhere_append) (rule f2)
  then have "somewhere (forward_here p2) (tl (body1 @ pre2 @ body2 @ rest))"
    using v1(2) by simp
  with f1 have "forward_here p1 (body1 @ pre2 @ body2 @ rest)
      \<and> somewhere (forward_here p2) (tl (body1 @ pre2 @ body2 @ rest))" by blast
  then have "somewhere (\<lambda>s. forward_here p1 s \<and> somewhere (forward_here p2) (tl s))
               (pre1 @ body1 @ pre2 @ body2 @ rest)"
    by (rule somewhere_append)
  then show ?thesis
    by (simp add: clause_before_def line v1 v2)
qed

section \<open>Greedy repetition and the optional flags\<close>

text \<open>A greedy repetition of one character class prefers the longer run: when the rest
  of the pattern succeeds after a longer run, that is the result.\<close>

lemma run_star_one_Nil:
  "run (R (Star (One c)) # K) b [] g = run K b [] g"
  by simp

lemma run_star_one_Cons:
  "run (R (Star (One c)) # K) b (x # xs) g =
     (if accepts c x
      then (case run (R (Star (One c)) # K) False xs g of
              Some r \<Rightarrow> Some r
            | None \<Rightarrow> run K b (x # xs) g)
      else run K b (x # xs) g)"
  by (simp del: accepts.simps)

lemma greedy_skip:
  "list_all (accepts c) u \<Longrightarrow> run (R (Star (One c)) # K) False t g = Some r \<Longrightarrow>
   run (R (Star (One c)) # K) False (u @ t) g = Some r"
  by (induction u) (simp_all add: run_star_one_Cons del: run.simps accepts.simps)


lemma star_one_stop:
  "(case t of [] \<Rightarrow> True | x # xs \<Rightarrow> \<not> accepts c x) \<Longrightarrow>
   run (R (Star (One c)) # K) b t g = run K b t g"
  by (cases t) (simp_all add: run_star_one_Cons run_star_one_Nil del: run.simps accepts.simps)

lemma star_one_last:
  "accepts c x \<Longrightarrow> run (R (Star (One c)) # K) False xs g = None \<Longrightarrow>
   run (R (Star (One c)) # K) b (x # xs) g = run K b (x # xs) g"
  by (simp add: run_star_one_Cons del: run.simps accepts.simps)

lemma somewhere_split: "s = a @ t \<Longrightarrow> P t \<Longrightarrow> somewhere P s"
  by (simp add: somewhere_append)

lemma strip_prefix_self: "strip_prefix l (l @ s) = Some s"
  by (simp add: strip_prefix_Some)

lemma flag_body_reads:
  assumes "reads (flag_body f n K) s"
  shows "somewhere (flag_here f) s"
proof -
  from assms obtain p w sp d rest where "s = p @ w @ f @ [sp] @ [d] @ rest"
    "accepts Space sp" "accepts Digit d"
    unfolding flag_body_def flag_tail_def reads_R plus_def by (auto simp del: accepts.simps)
  then have "s = (p @ w) @ (f @ sp # d # rest) \<and> flag_here f (f @ sp # d # rest)"
    by (simp add: flag_here_def strip_prefix_self del: accepts.simps)
  then show ?thesis using somewhere_split by blast
qed

lemma flag_body_absent:
  "\<not> somewhere (flag_here f) s \<Longrightarrow> run (flag_body f n K) b s g = None"
  using flag_body_reads run_sound by (cases "run (flag_body f n K) b s g") blast+

lemma run_flag_re:
  "run (R (flag_re f n) # K) b s g =
     (case run (flag_body f n K) b s g of Some r \<Rightarrow> Some r | None \<Rightarrow> run K b s g)"
  by (simp add: flag_re_def flag_body_def flag_tail_def del: run.simps(6))

lemma flag_absent:
  "\<not> somewhere (flag_here f) s \<Longrightarrow> run (R (flag_re f n) # K) b s g = run K b s g"
  by (simp add: run_flag_re flag_body_absent del: run.simps)

lemma run_digits:
  assumes "v \<noteq> []" "list_all (accepts Digit) v"
    and "case rest of [] \<Rightarrow> True | x # xs \<Rightarrow> \<not> accepts Digit x"
    and "run K False rest (g(n \<mapsto> v)) = Some r"
  shows "run (R (Grp n (plus (One Digit))) # K) b (v @ rest) g = Some r"
proof -
  from assms(1,2) obtain d ds where v: "v = d # ds" and d: "accepts Digit d"
    and ds: "list_all (accepts Digit) ds"
    by (cases v) auto
  have "run (R (Star (One Digit)) # EndGrp n (v @ rest) # K) False rest g = Some r"
    using assms(3,4) by (simp add: star_one_stop del: run.simps(6) accepts.simps)
  from greedy_skip [OF ds this] d show ?thesis
    by (simp add: plus_def v del: run.simps(6) accepts.simps)
qed

lemma run_flag_tail:
  assumes "\<not> accepts Space c" "accepts Space sp"
    and "v \<noteq> []" "list_all (accepts Digit) v"
    and "case rest of [] \<Rightarrow> True | x # xs \<Rightarrow> \<not> accepts Digit x"
    and "run K False rest (g(n \<mapsto> v)) = Some r"
  shows "run (R (flag_tail (c # f') n) # K) False ((c # f') @ sp # v @ rest) g = Some r"
proof -
  let ?K1 = "R (seqs [Lit (c # f'), One Space, Grp n (plus (One Digit))]) # K"
  have "run (R (Grp n (plus (One Digit))) # K) False (v @ rest) g = Some r"
    using assms(3-6) by (rule run_digits)
  then have "run ?K1 False ((c # f') @ sp # v @ rest) g = Some r"
    using assms(2) strip_prefix_self [of "c # f'" "sp # v @ rest"]
    by (simp del: run.simps(6,9) accepts.simps strip_prefix.simps)
  moreover have "run (R (Star (One Space)) # ?K1) False ((c # f') @ sp # v @ rest) g
      = run ?K1 False ((c # f') @ sp # v @ rest) g"
    by (rule star_one_stop) (simp add: assms(1) del: accepts.simps)
  ultimately show ?thesis
    by (simp add: flag_tail_def del: run.simps(4,6,9) accepts.simps)
qed

lemma flag_present:
  assumes pre: "list_all (accepts Dot) pre"
    and c: "\<not> accepts Space c" "accepts Dot c"
    and sp: "accepts Space sp"
    and v: "v \<noteq> []" "list_all (accepts Digit) v"
    and rest: "case rest of [] \<Rightarrow> True | x # xs \<Rightarrow> \<not> accepts Digit x"
    and later: "\<not> somewhere (flag_here (c # f')) (f' @ sp # v @ rest)"
    and cont: "run K False rest (g(n \<mapsto> v)) = Some r"
  shows "run (R (flag_re (c # f') n) # K) False (pre @ (c # f') @ sp # v @ rest) g = Some r"
proof -
  let ?S = "R (Star (One Dot)) # R (flag_tail (c # f') n) # K"
  have deeper: "run ?S False (f' @ sp # v @ rest) g = None"
    using flag_body_absent [OF later] by (simp add: flag_body_def)
  have "run ?S False (c # f' @ sp # v @ rest) g
      = run (R (flag_tail (c # f') n) # K) False (c # f' @ sp # v @ rest) g"
    using c(2) deeper by (rule star_one_last)
  also have "\<dots> = Some r"
    using run_flag_tail [OF c(1) sp v rest cont] by simp
  finally have "run ?S False ((c # f') @ sp # v @ rest) g = Some r" by simp
  from greedy_skip [OF pre this] show ?thesis
    by (simp add: run_flag_re flag_body_def del: run.simps)
qed

lemma flag_stage:
  assumes sp: "sp = [] \<or> sp = '' ''"
    and v: "digits_opt v"
    and tail: "\<not> somewhere (flag_here (CHR ''-'' # f')) tail"
    and self: "\<And>ds. list_all (accepts Digit) ds \<Longrightarrow>
                 \<not> somewhere (flag_here (CHR ''-'' # f')) (f' @ CHR '' '' # ds @ CHR '' '' # tail)"
  shows "\<exists>sp'. (sp' = [] \<or> sp' = '' '') \<and>
           (\<forall>r. run K False (sp' @ tail) (set_group n v g) = Some r \<longrightarrow>
                run (R (flag_re (CHR ''-'' # f') n) # K) False
                    (sp @ flag_text (CHR ''-'' # f') v @ tail) g = Some r)"
proof (cases v)
  case None
  have "\<not> somewhere (flag_here (CHR ''-'' # f')) (sp @ tail)"
    using sp tail by (auto simp: flag_here_def)
  then have "run (R (flag_re (CHR ''-'' # f') n) # K) False (sp @ tail) g = run K False (sp @ tail) g"
    by (rule flag_absent)
  with sp show ?thesis
    by (intro exI [of _ sp]) (simp add: None flag_text_def set_group_def del: run.simps)
next
  case (Some ds)
  with v have ds: "ds \<noteq> []" "list_all (accepts Digit) ds"
    by (simp_all add: digits_opt_def)
  have pre: "list_all (accepts Dot) (sp @ ''-'')"
    using sp by auto
  have "run (R (flag_re (CHR ''-'' # f') n) # K) False
          ((sp @ ''-'') @ (CHR ''-'' # f') @ CHR '' '' # ds @ (CHR '' '' # tail)) g = Some r"
    if "run K False (CHR '' '' # tail) (g(n \<mapsto> ds)) = Some r" for r
    by (rule flag_present [OF pre _ _ _ ds _ _ that]) (simp_all add: self [OF ds(2)])
  then show ?thesis
    by (intro exI [of _ "'' ''"]) (simp add: Some flag_text_def set_group_def del: run.simps)
qed

lemma launch_round_reads:
  assumes "reads (R launch_round # K) s"
  shows "somewhere (lit_here LAUNCH) s"
proof -
  from assms obtain p rest where "s = p @ LAUNCH @ rest"
    unfolding launch_round_def reads_R by auto
  moreover have "lit_here LAUNCH (LAUNCH @ rest)"
    by (simp add: lit_here_def strip_prefix_self)
  ultimately show ?thesis using somewhere_split by blast
qed

lemma launch_round_absent:
  "\<not> somewhere (lit_here LAUNCH) s \<Longrightarrow> run (R launch_round # K) b s g = None"
  using launch_round_reads run_sound by (cases "run (R launch_round # K) b s g") blast+

lemma launch_self: "somewhere (lit_here LAUNCH) (tl LAUNCH @ s) = somewhere (lit_here LAUNCH) s"
  by (simp add: LAUNCH_def lit_here_def)

lemma launch_stage:
  assumes M: "list_all (accepts Dot) M"
    and S: "\<not> somewhere (lit_here LAUNCH) S"
    and cont: "run K False S g = Some r"
  shows "run (R (plus launch_round) # K) False (M @ LAUNCH @ S) g = Some r"
proof -
  let ?K = "R (Star launch_round) # K"
  have again: "run (R launch_round # Chk launch_round (length S) # K) False S g = None"
    using S by (rule launch_round_absent)
  have after: "run ?K False S g = Some r"
    using again cont by (simp del: run.simps(5))
  have deeper: "run (R launch_round # ?K) False (tl LAUNCH @ S) g = None"
    using S by (intro launch_round_absent) (simp add: launch_self)
  have L: "LAUNCH = hd LAUNCH # tl LAUNCH" "accepts Dot (hd LAUNCH)"
    by (simp_all add: LAUNCH_def)
  have "run (R (Star (One Dot)) # R (Lit LAUNCH) # ?K) False (hd LAUNCH # tl LAUNCH @ S) g
      = run (R (Lit LAUNCH) # ?K) False (hd LAUNCH # tl LAUNCH @ S) g"
    using L(2) deeper by (intro star_one_last) (simp_all add: launch_round_def del: run.simps(4,6))
  also have "\<dots> = run (R (Lit LAUNCH) # ?K) False (LAUNCH @ S) g"
    using L(1) by (metis append_Cons)
  also have "\<dots> = Some r"
    using after by (simp add: strip_prefix_self del: run.simps(6) strip_prefix.simps)
  finally have "run (R (Star (One Dot)) # R (Lit LAUNCH) # ?K) False (LAUNCH @ S) g = Some r"
    using L(1) by (metis append_Cons)
  from greedy_skip [OF M this] show ?thesis
    by (simp add: plus_def launch_round_def del: run.simps(4,6))
qed



lemma date_stage:
  assumes D: "D \<noteq> []" "CHR ''/'' \<notin> set D"
    and cont: "run K False (CHR ''/'' # rest) (g(''date_str'' \<mapsto> D)) = Some r"
  shows "run (R date_group # K) True (D @ CHR ''/'' # rest) g = Some r"
proof -
  from D obtain d D' where d: "D = d # D'" "accepts (NotCh CHR ''/'') d"
    and D': "list_all (accepts (NotCh CHR ''/'')) D'"
    by (cases D) (auto simp: list_all_iff)
  let ?K = "EndGrp ''date_str'' (D @ CHR ''/'' # rest) # K"
  have "run (R (Star (One (NotCh CHR ''/''))) # ?K) False (CHR ''/'' # rest) g = Some r"
    using cont by (simp add: star_one_stop del: run.simps(6))
  from greedy_skip [OF D' this] d show ?thesis
    by (simp add: date_group_def plus_def del: run.simps(6))
qed



lemma flag_here_Cons: "flag_here (c # f) (x # s) = (c = x \<and> flag_here f s)"
  by (simp add: flag_here_def)

lemma flag_here_Nil: "flag_here (c # f) [] = False"
  by (simp add: flag_here_def)

lemma lit_here_Cons: "lit_here (c # l) (x # s) = (c = x \<and> lit_here l s)"
  by (simp add: lit_here_def)

lemma lit_here_Nil: "lit_here (c # l) [] = False"
  by (simp add: lit_here_def)

lemma digit_not_dash: "accepts Digit x \<Longrightarrow> x \<noteq> CHR ''-'' \<and> x \<noteq> CHR ''l''"
  by auto

lemma skip_digits_flag:
  "list_all (accepts Digit) ds \<Longrightarrow>
   somewhere (flag_here (CHR ''-'' # f')) (ds @ x # r) = somewhere (flag_here (CHR ''-'' # f')) (x # r)"
  by (induction ds) (auto simp: flag_here_Cons dest: digit_not_dash simp del: accepts.simps)

lemma skip_digits_launch:
  "list_all (accepts Digit) ds \<Longrightarrow>
   somewhere (lit_here (CHR ''l'' # l')) (ds @ x # r) = somewhere (lit_here (CHR ''l'' # l')) (x # r)"
  by (induction ds) (auto simp: lit_here_Cons dest: digit_not_dash simp del: accepts.simps)

lemma flag_text_other:
  assumes "f \<in> set launch_flags" "f' \<in> set launch_flags" "f \<noteq> f'" "digits_opt v"
  shows "somewhere (flag_here f) (flag_text f' v @ r) = somewhere (flag_here f) r"
proof (cases v)
  case None
  then show ?thesis by (simp add: flag_text_def)
next
  case (Some ds)
  with assms(4) have ds: "list_all (accepts Digit) ds" by (simp add: digits_opt_def)
  have "f = f' \<or> somewhere (flag_here f) (CHR ''-'' # f' @ CHR '' '' # ds @ CHR '' '' # r)
           = somewhere (flag_here f) r"
    by (insert assms(1,2) [unfolded launch_flags_def set_simps insert_iff empty_iff],
        elim disjE FalseE; hypsubst;
        simp add: flag_here_Cons skip_digits_flag [OF ds] del: accepts.simps)
  with assms(3) show ?thesis
    by (simp add: Some flag_text_def)
qed

lemma flag_text_self:
  assumes "CHR ''-'' # f' \<in> set launch_flags" "list_all (accepts Digit) ds"
  shows "somewhere (flag_here (CHR ''-'' # f')) (f' @ CHR '' '' # ds @ CHR '' '' # r)
       = somewhere (flag_here (CHR ''-'' # f')) r"
  using assms(1)
  by (auto simp: launch_flags_def flag_here_Cons skip_digits_flag [OF assms(2)]
           simp del: accepts.simps)

lemma flag_text_launch:
  assumes "f' \<in> set launch_flags" "digits_opt v"
  shows "somewhere (lit_here LAUNCH) (flag_text f' v @ r) = somewhere (lit_here LAUNCH) r"
proof (cases v)
  case None
  then show ?thesis by (simp add: flag_text_def)
next
  case (Some ds)
  with assms(2) have ds: "list_all (accepts Digit) ds" by (simp add: digits_opt_def)
  from assms(1) show ?thesis
    by (auto simp: launch_flags_def Some flag_text_def LAUNCH_def lit_here_Cons
                   skip_digits_launch [OF ds] simp del: accepts.simps)
qed

lemma RE_LAUNCH_CVD_stages:
  "RE_LAUNCH_CVD =
     Seq date_group (Seq (plus launch_round)
       (seqs [flag_re ''-cpus'' ''cpu'', flag_re ''-x_res'' ''x_res'', flag_re ''-y_res'' ''y_res'',
              flag_re ''-dpi'' ''dpi'', flag_re ''-memory_mb'' ''memory'',
              flag_re ''-blank_data_image_mb'' ''disk'']))"
  by (simp add: RE_LAUNCH_CVD_def date_group_def launch_round_def LAUNCH_def)

lemma set_group_apply:
  "set_group n v g n' = (if n' = n then (if v = None then g n else v) else g n')"
  by (simp add: set_group_def split: option.splits)

lemma if_None_id: "(if v = None then None else v) = v"
  by simp


lemma flag_stage_launch:
  assumes f: "CHR ''-'' # f' \<in> set launch_flags"
    and sp: "sp = [] \<or> sp = '' ''"
    and v: "digits_opt v"
    and tail: "\<not> somewhere (flag_here (CHR ''-'' # f')) tail"
  obtains sp' where "sp' = [] \<or> sp' = '' ''"
    and "\<And>r. run K False (sp' @ tail) (set_group n v g) = Some r \<Longrightarrow>
             run (R (flag_re (CHR ''-'' # f') n) # K) False
                 (sp @ flag_text (CHR ''-'' # f') v @ tail) g = Some r"
proof -
  have "\<not> somewhere (flag_here (CHR ''-'' # f')) (f' @ CHR '' '' # ds @ CHR '' '' # tail)"
    if "list_all (accepts Digit) ds" for ds
    using tail unfolding flag_text_self [OF f that] .
  from flag_stage [OF sp v tail this, of K n g] that show ?thesis
    by blast
qed

lemma launch_flags_captured:
  assumes D: "D \<noteq> []" "CHR ''/'' \<notin> set D"
    and M: "list_all (accepts Dot) M"
    and v: "digits_opt c" "digits_opt x" "digits_opt y" "digits_opt d" "digits_opt m" "digits_opt k"
    and T: "plain_tail T"
  shows "map_option launch_groups
           (re_match RE_LAUNCH_CVD (D @ CHR ''/'' # M @ LAUNCH @ launch_args c x y d m k @ T))
         = Some [Some D, c, x, y, d, m, k]"
proof -
  let ?F1 = "flag_re ''-cpus'' ''cpu''" and ?F2 = "flag_re ''-x_res'' ''x_res''"
  and ?F3 = "flag_re ''-y_res'' ''y_res''" and ?F4 = "flag_re ''-dpi'' ''dpi''"
  and ?F5 = "flag_re ''-memory_mb'' ''memory''" and ?F6 = "flag_re ''-blank_data_image_mb'' ''disk''"
  let ?t5 = "flag_text ''-blank_data_image_mb'' k @ T"
  let ?t4 = "flag_text ''-memory_mb'' m @ ?t5"
  let ?t3 = "flag_text ''-dpi'' d @ ?t4"
  let ?t2 = "flag_text ''-y_res'' y @ ?t3"
  let ?t1 = "flag_text ''-x_res'' x @ ?t2"
  let ?g0 = "[''date_str'' \<mapsto> D]"
  let ?g1 = "set_group ''cpu'' c ?g0"
  let ?g2 = "set_group ''x_res'' x ?g1"
  let ?g3 = "set_group ''y_res'' y ?g2"
  let ?g4 = "set_group ''dpi'' d ?g3"
  let ?g5 = "set_group ''memory'' m ?g4"
  let ?g6 = "set_group ''disk'' k ?g5"
  let ?K5 = "[R ?F6]"
  let ?K4 = "[R (seqs [?F5, ?F6])]"
  let ?K3 = "[R (seqs [?F4, ?F5, ?F6])]"
  let ?K2 = "[R (seqs [?F3, ?F4, ?F5, ?F6])]"
  let ?K1 = "[R (seqs [?F2, ?F3, ?F4, ?F5, ?F6])]"
  let ?K0 = "[R (seqs [?F1, ?F2, ?F3, ?F4, ?F5, ?F6])]"
  have mem: "''-cpus'' \<in> set launch_flags" "''-x_res'' \<in> set launch_flags"
    "''-y_res'' \<in> set launch_flags" "''-dpi'' \<in> set launch_flags"
    "''-memory_mb'' \<in> set launch_flags" "''-blank_data_image_mb'' \<in> set launch_flags"
    by (simp_all add: launch_flags_def)
  from T have T0: "\<not> somewhere (lit_here LAUNCH) T"
    and Tf: "\<not> somewhere (flag_here ''-cpus'') T" "\<not> somewhere (flag_here ''-x_res'') T"
      "\<not> somewhere (flag_here ''-y_res'') T" "\<not> somewhere (flag_here ''-dpi'') T"
      "\<not> somewhere (flag_here ''-memory_mb'') T"
      "\<not> somewhere (flag_here ''-blank_data_image_mb'') T"
    by (simp_all add: plain_tail_def launch_flags_def)
  have n1: "\<not> somewhere (flag_here ''-cpus'') ?t1"
    using Tf(1) by (simp add: flag_text_other mem v)
  have n2: "\<not> somewhere (flag_here ''-x_res'') ?t2"
    using Tf(2) by (simp add: flag_text_other mem v)
  have n3: "\<not> somewhere (flag_here ''-y_res'') ?t3"
    using Tf(3) by (simp add: flag_text_other mem v)
  have n4: "\<not> somewhere (flag_here ''-dpi'') ?t4"
    using Tf(4) by (simp add: flag_text_other mem v)
  have n5: "\<not> somewhere (flag_here ''-memory_mb'') ?t5"
    using Tf(5) by (simp add: flag_text_other mem v)
  have nl: "\<not> somewhere (lit_here LAUNCH) (launch_args c x y d m k @ T)"
    using T0 by (simp add: launch_args_def flag_text_launch mem v)
  obtain s1 where s1: "s1 = [] \<or> s1 = '' ''"
    and i1: "\<And>r. run ?K1 False (s1 @ ?t1) ?g1 = Some r \<Longrightarrow>
               run (R ?F1 # ?K1) False ([] @ flag_text ''-cpus'' c @ ?t1) ?g0 = Some r"
    using flag_stage_launch [OF mem(1) _ v(1) n1, of "[]" ?K1 "''cpu''" ?g0] by blast
  obtain s2 where s2: "s2 = [] \<or> s2 = '' ''"
    and i2: "\<And>r. run ?K2 False (s2 @ ?t2) ?g2 = Some r \<Longrightarrow>
               run (R ?F2 # ?K2) False (s1 @ flag_text ''-x_res'' x @ ?t2) ?g1 = Some r"
    using flag_stage_launch [OF mem(2) s1 v(2) n2, of ?K2 "''x_res''" ?g1] by blast
  obtain s3 where s3: "s3 = [] \<or> s3 = '' ''"
    and i3: "\<And>r. run ?K3 False (s3 @ ?t3) ?g3 = Some r \<Longrightarrow>
               run (R ?F3 # ?K3) False (s2 @ flag_text ''-y_res'' y @ ?t3) ?g2 = Some r"
    using flag_stage_launch [OF mem(3) s2 v(3) n3, of ?K3 "''y_res''" ?g2] by blast
  obtain s4 where s4: "s4 = [] \<or> s4 = '' ''"
    and i4: "\<And>r. run ?K4 False (s4 @ ?t4) ?g4 = Some r \<Longrightarrow>
               run (R ?F4 # ?K4) False (s3 @ flag_text ''-dpi'' d @ ?t4) ?g3 = Some r"
    using flag_stage_launch [OF mem(4) s3 v(4) n4, of ?K4 "''dpi''" ?g3] by blast
  obtain s5 where s5: "s5 = [] \<or> s5 = '' ''"
    and i5: "\<And>r. run ?K5 False (s5 @ ?t5) ?g5 = Some r \<Longrightarrow>
               run (R ?F5 # ?K5) False (s4 @ flag_text ''-memory_mb'' m @ ?t5) ?g4 = Some r"
    using flag_stage_launch [OF mem(5) s4 v(5) n5, of ?K5 "''memory''" ?g4] by blast
  obtain s6 where s6: "s6 = [] \<or> s6 = '' ''"
    and i6: "\<And>r. run [] False (s6 @ T) ?g6 = Some r \<Longrightarrow>
               run (R ?F6 # []) False (s5 @ flag_text ''-blank_data_image_mb'' k @ T) ?g5 = Some r"
    using flag_stage_launch [OF mem(6) s5 v(6) Tf(6), of "[]" "''disk''" ?g5] by blast
  have r6: "run ?K5 False (s5 @ ?t5) ?g5 = Some ?g6"
    using i6 [of ?g6] by simp
  have r5: "run ?K4 False (s4 @ ?t4) ?g4 = Some ?g6"
    using i5 [OF r6] by (simp del: run.simps(8))
  have r4: "run ?K3 False (s3 @ ?t3) ?g3 = Some ?g6"
    using i4 [OF r5] by (simp del: run.simps(8))
  have r3: "run ?K2 False (s2 @ ?t2) ?g2 = Some ?g6"
    using i3 [OF r4] by (simp del: run.simps(8))
  have r2: "run ?K1 False (s1 @ ?t1) ?g1 = Some ?g6"
    using i2 [OF r3] by (simp del: run.simps(8))
  have r1: "run ?K0 False (launch_args c x y d m k @ T) ?g0 = Some ?g6"
    using i1 [OF r2] by (simp add: launch_args_def del: run.simps(8))
  have "run [R (Seq (plus launch_round) (seqs [?F1, ?F2, ?F3, ?F4, ?F5, ?F6]))] False
          ((CHR ''/'' # M) @ LAUNCH @ launch_args c x y d m k @ T) ?g0 = Some ?g6"
    using launch_stage [OF _ nl r1, of "CHR ''/'' # M"] M
    by (simp del: run.simps(5,8) add: run.simps(5) [of "plus launch_round"])
  then have "run [R (Seq (plus launch_round) (seqs [?F1, ?F2, ?F3, ?F4, ?F5, ?F6]))] False
          (CHR ''/'' # M @ LAUNCH @ launch_args c x y d m k @ T) (Map.empty(''date_str'' \<mapsto> D))
            = Some ?g6"
    by simp
  from date_stage [OF D this]
  have "re_match RE_LAUNCH_CVD (D @ CHR ''/'' # M @ LAUNCH @ launch_args c x y d m k @ T) = Some ?g6"
    by (simp add: re_match_def RE_LAUNCH_CVD_stages del: run.simps(5,8,9)
          add: run.simps(5) [of date_group])
  then show ?thesis
    by (simp add: launch_groups_def set_group_apply if_None_id)
qed

section \<open>Evaluating the runtime functions\<close>

lemma show_nat_6444: "show_nat 6444 = ''6444''"
  by (simp add: show_nat.simps digit_char_def)

lemma show_nat_6520: "show_nat 6520 = ''6520''"
  by (simp add: show_nat.simps digit_char_def)

lemma GetAdbVncPortFromSSHTunnel_groups:
  "GetAdbVncPortFromSSHTunnel ip out =
     (case map_option port_groups
             (first_match (RE_SSH_TUNNEL_PATTERN ''local_vnc_port'' ''6444'' ''local_adb_port'' ''6520'' ip)
                          (splitlines out)) of
        None \<Rightarrow> Inr \<lparr>vnc_port = None, adb_port = None\<rparr>
      | Some (v, a) \<Rightarrow>
          (case a of
             None \<Rightarrow> Inl TypeError
           | Some ads \<Rightarrow>
               (case v of
                  None \<Rightarrow> Inl TypeError
                | Some vds \<Rightarrow> Inr \<lparr>vnc_port = Some (int_of_digits vds),
                                    adb_port = Some (int_of_digits ads)\<rparr>)))"
  by (simp add: GetAdbVncPortFromSSHTunnel_def port_groups_def group_int_def RE_GROUP_VNC_def
        RE_GROUP_ADB_def DEFAULT_VNC_PORT_def DEFAULT_ADB_PORT_def show_nat_6444 show_nat_6520
      split: option.splits)

lemma tunnel_run_other_ip:
  "map_option port_groups
     (first_match (RE_SSH_TUNNEL_PATTERN ''local_vnc_port'' ''6444'' ''local_adb_port'' ''6520'' ''35.1.2.3'')
        [tunnel_line_other_ip])
   = Some (Some ''6444'', Some ''6520'')"
  by code_simp

lemma tunnel_run_port_zero:
  "map_option port_groups
     (first_match (RE_SSH_TUNNEL_PATTERN ''local_vnc_port'' ''6444'' ''local_adb_port'' ''6520'' ''35.1.2.3'')
        [tunnel_line_port_zero])
   = Some (Some ''6444'', Some ''0'')"
  by code_simp

lemma tunnel_port_zero:
  "GetAdbVncPortFromSSHTunnel ''35.1.2.3''
     tunnel_line_port_zero
   = Inr \<lparr>vnc_port = Some 6444, adb_port = Some 0\<rparr>"
  by (simp add: GetAdbVncPortFromSSHTunnel_groups splitlines_def tunnel_run_port_zero
        int_of_digits_def digit_val_def del: first_match.simps)

lemma tunnel_run:
  "map_option port_groups
     (first_match (RE_SSH_TUNNEL_PATTERN ''local_vnc_port'' ''6444'' ''local_adb_port'' ''6520'' ''35.1.2.3'')
        [tunnel_line])
   = Some (Some ''6444'', Some ''6520'')"
  by code_simp

lemma tunnel_connected:
  "GetAdbVncPortFromSSHTunnel ''35.1.2.3'' tunnel_line
   = Inr \<lparr>vnc_port = Some 6444, adb_port = Some 6520\<rparr>"
  by (simp add: GetAdbVncPortFromSSHTunnel_groups splitlines_def tunnel_run
        int_of_digits_def digit_val_def del: first_match.simps)

lemma tunnel_empty_table:
  "GetAdbVncPortFromSSHTunnel ip [] = Inr \<lparr>vnc_port = None, adb_port = None\<rparr>"
  by (simp add: GetAdbVncPortFromSSHTunnel_groups splitlines_def)

lemma launch_run_header:
  "re_match RE_LAUNCH_CVD ''                 STARTED CMD'' = None"
  by code_simp

lemma local_instance_of_groups:
  "launch_groups g = [Some d, c, x, y, dpi, m, k] \<Longrightarrow>
   local_instance_of g =
     Inr \<lparr>ins_name = Some ''local-instance'',
          ins_fullname = Some ''device serial: 127.0.0.1:6520 (local-instance)'',
          ins_status = Some ''RUNNING'',
          ins_display = Some (fmt_s x @ ''x'' @ fmt_s y @ '' ('' @ fmt_s dpi @ '')''),
          ins_ip = Some ''127.0.0.1'', ins_adb_port = Some 6520, ins_vnc_port = Some 6444,
          ins_ssh_tunnel_is_connected = Some True, ins_createtime = Some (strip d),
          ins_avd_type = Some TYPE_CF, ins_avd_flavor = None, ins_is_local = Some True\<rparr>"
  by (simp add: launch_groups_def local_instance_of_def Instance_def LOCAL_INS_NAME_def
        FULL_NAME_STRING_def DEFAULT_ADB_PORT_def DEFAULT_VNC_PORT_def show_nat_6520
        INS_STATUS_RUNNING_def)

lemma first_match_skip:
  "\<forall>l\<in>set before. re_match r l = None \<Longrightarrow>
   first_match r (before @ l # after) =
     (case re_match r l of Some g \<Rightarrow> Some g | None \<Rightarrow> first_match r after)"
  by (induction before) auto

lemma first_match_none:
  "\<forall>l\<in>set ls. re_match r l = None \<Longrightarrow> first_match r ls = None"
  by (induction ls) auto

lemma strip_e2e: "strip ''Mon Jan 1 00:00:00 2024 '' = ''Mon Jan 1 00:00:00 2024''"
  by (simp add: strip_def)

lemma splitlines_e2e:
  "splitlines e2e_table = [''                 STARTED CMD''] @ [e2e_line] @ []"
  by (simp add: splitlines_def)


lemma reversed_clauses:
  "clause_before ''6520'' ''6444'' tunnel_line_reversed
   \<and> \<not> clause_before ''6444'' ''6520'' tunnel_line_reversed"
  by code_simp

lemma plain_tail_example:
  "plain_tail ''--data_policy always_create --system_image_dir /home/user/img --vnc_server_port 6444''"
  by (simp add: plain_tail_def launch_flags_def LAUNCH_def flag_here_Cons lit_here_Cons
        flag_here_Nil lit_here_Nil)

lemma digits_opt_example:
  "digits_opt None" "digits_opt (Some ''2'')" "digits_opt (Some ''720'')"
  "digits_opt (Some ''1280'')" "digits_opt (Some ''320'')" "digits_opt (Some ''2048'')"
  "digits_opt (Some ''4096'')"
  by (simp_all add: digits_opt_def)

text \<open>Discovery on a process table whose first matching line is a launch command line
  with an absolute launcher path: the start time is what stands before the first slash.\<close>

lemma local_instance_of_launch_line:
  assumes lines: "splitlines out
                    = before @ [D @ CHR ''/'' # M @ LAUNCH @ launch_args c x y d m k @ T] @ after"
    and before: "\<forall>l\<in>set before. re_match RE_LAUNCH_CVD l = None"
    and D: "D \<noteq> []" "CHR ''/'' \<notin> set D"
    and M: "list_all (accepts Dot) M"
    and v: "digits_opt c" "digits_opt x" "digits_opt y" "digits_opt d" "digits_opt m" "digits_opt k"
    and T: "plain_tail T"
  shows "LocalInstance True out =
          Inr (Some \<lparr>ins_name = Some ''local-instance'',
                     ins_fullname = Some ''device serial: 127.0.0.1:6520 (local-instance)'',
                     ins_status = Some ''RUNNING'',
                     ins_display = Some (fmt_s x @ ''x'' @ fmt_s y @ '' ('' @ fmt_s d @ '')''),
                     ins_ip = Some ''127.0.0.1'', ins_adb_port = Some 6520,
                     ins_vnc_port = Some 6444, ins_ssh_tunnel_is_connected = Some True,
                     ins_createtime = Some (strip D),
                     ins_avd_type = Some TYPE_CF, ins_avd_flavor = None,
                     ins_is_local = Some True\<rparr>)"
proof -
  let ?line = "D @ CHR ''/'' # M @ LAUNCH @ launch_args c x y d m k @ T"
  from launch_flags_captured [OF D M v T]
  obtain g where g: "re_match RE_LAUNCH_CVD ?line = Some g"
    and lg: "launch_groups g = [Some D, c, x, y, d, m, k]"
    by (cases "re_match RE_LAUNCH_CVD ?line") simp_all
  from lines before have "first_match RE_LAUNCH_CVD (splitlines out) = Some g"
    by (simp add: first_match_skip g del: first_match.simps)
  then show ?thesis
    by (simp add: LocalInstance_def local_instance_of_groups [OF lg])
qed

lemma local_e2e_table:
  "\<exists>j. LocalInstance True e2e_table = Inr (Some j)"
proof -
  have "splitlines e2e_table
          = [''                 STARTED CMD'']
            @ [''Mon Jan 1 00:00:00 2024 '' @ CHR ''/'' # ''home/user/bin/'' @ LAUNCH
               @ launch_args (Some ''2'') (Some ''720'') (Some ''1280'') (Some ''320'')
                   (Some ''2048'') (Some ''4096'')
               @ ''--data_policy always_create --system_image_dir /home/user/img --vnc_server_port 6444'']
            @ []"
    by (simp add: splitlines_def LAUNCH_def launch_args_def flag_text_def)
  from local_instance_of_launch_line [OF this _ _ _ _ digits_opt_example(2-7) plain_tail_example]
       launch_run_header
  show ?thesis by simp
qed

section \<open>Remote instances: address, connection state and full name\<close>

lemma scan_access_configs_last:
  "scan_access_configs cs ip = (case cs of [] \<Rightarrow> ip | c # cs' \<Rightarrow> natIP (last (c # cs')))"
  by (induction cs arbitrary: ip) (auto split: list.splits)

lemma scan_network_interfaces_last:
  "scan_network_interfaces nis ip0 = Inr ip \<Longrightarrow>
   ip = (case all_access_configs nis of [] \<Rightarrow> ip0 | c # cs \<Rightarrow> natIP (last (c # cs)))"
proof (induction nis arbitrary: ip0)
  case Nil
  then show ?case by (simp add: all_access_configs_def)
next
  case (Cons n ns)
  from Cons.prems obtain cs where cs: "accessConfigs n = Some cs"
    and rest: "scan_network_interfaces ns (scan_access_configs cs ip0) = Inr ip"
    by (auto split: option.splits)
  have conc: "all_access_configs (n # ns) = cs @ all_access_configs ns"
    by (simp add: all_access_configs_def cs)
  from Cons.IH [OF rest] show ?case
    unfolding conc
    by (cases cs; cases "all_access_configs ns") (auto simp: scan_access_configs_last split: list.splits)
qed

lemma scan_metadata_keeps:
  "scan_metadata ms self = Inr i \<Longrightarrow>
   ins_ip i = ins_ip self \<and> ins_adb_port i = ins_adb_port self \<and> ins_vnc_port i = ins_vnc_port self
   \<and> ins_ssh_tunnel_is_connected i = ins_ssh_tunnel_is_connected self
   \<and> ins_fullname i = ins_fullname self \<and> ins_is_local i = ins_is_local self"
proof (induction ms arbitrary: self)
  case Nil
  then show ?case by simp
next
  case (Cons m ms)
  then show ?case
    by (fastforce split: option.splits if_splits)
qed

lemma tunnel_ports_together:
  "GetAdbVncPortFromSSHTunnel ip out = Inr fp \<Longrightarrow> (adb_port fp = None) = (vnc_port fp = None)"
  by (auto simp: GetAdbVncPortFromSSHTunnel_def Let_def split: option.splits sum.splits)

lemma ProcessGceInstance_cases:
  assumes "ProcessGceInstance out gce self0 = Inr i"
  obtains nis where "networkInterfaces gce = Some nis"
    and "scan_network_interfaces nis None = Inr (last_natIP nis)"
    and "(last_natIP nis = None \<or> last_natIP nis = Some []) \<and>
           scan_metadata (metadata_items gce)
             (self0\<lparr>ins_name := gce_name gce, ins_createtime := gce_creationTimestamp gce,
                     ins_status := gce_status gce\<rparr>) = Inr i
         \<or> (\<exists>ip fp. last_natIP nis = Some ip \<and> ip \<noteq> [] \<and>
               GetAdbVncPortFromSSHTunnel ip out = Inr fp \<and>
               scan_metadata (metadata_items gce)
                 (set_tunnel_fields ip fp
                   (self0\<lparr>ins_name := gce_name gce, ins_createtime := gce_creationTimestamp gce,
                           ins_status := gce_status gce\<rparr>)) = Inr i)"
proof -
  from assms obtain nis where nis: "networkInterfaces gce = Some nis"
    by (auto simp: ProcessGceInstance_def Let_def split: option.splits)
  from assms nis obtain ip where ip: "scan_network_interfaces nis None = Inr ip"
    by (auto simp: ProcessGceInstance_def Let_def split: sum.splits)
  from scan_network_interfaces_last [OF ip] have ipl: "ip = last_natIP nis"
    by (simp add: last_natIP_def)
  show ?thesis
    apply (rule that [OF nis])
    using ip ipl apply simp
    using assms nis ip ipl
    by (auto simp: ProcessGceInstance_def Let_def split: option.splits sum.splits if_splits)
qed

lemma set_tunnel_fields_sel:
  "ins_ip (set_tunnel_fields ip fp self) = Some ip"
  "ins_adb_port (set_tunnel_fields ip fp self) = adb_port fp"
  "ins_vnc_port (set_tunnel_fields ip fp self) = vnc_port fp"
  "ins_ssh_tunnel_is_connected (set_tunnel_fields ip fp self)
     = Some (\<exists>p. adb_port fp = Some p \<and> p \<noteq> 0)"
  "ins_fullname (set_tunnel_fields ip fp self)
     = Some (FULL_NAME_STRING (device_serial (adb_port fp)) (fmt_s (ins_name self)))"
  by (auto simp: set_tunnel_fields_def device_serial_def Let_def split: option.splits)

lemma RemoteInstance_fields:
  assumes "RemoteInstance out gce = Inr i"
  shows "(ins_ip i = None \<and> ins_adb_port i = None \<and> ins_vnc_port i = None
            \<and> ins_ssh_tunnel_is_connected i = None \<and> ins_fullname i = None)
       \<or> (\<exists>ip. ip \<noteq> [] \<and> ins_ip i = Some ip
            \<and> (ins_adb_port i = None) = (ins_vnc_port i = None)
            \<and> ins_ssh_tunnel_is_connected i = Some (\<exists>p. ins_adb_port i = Some p \<and> p \<noteq> 0)
            \<and> ins_fullname i
                = Some (FULL_NAME_STRING (device_serial (ins_adb_port i)) (fmt_s (gce_name gce))))"
proof -
  from assms obtain i' where p: "ProcessGceInstance out gce Instance = Inr i'"
    and i: "i = i'\<lparr>ins_is_local := Some False\<rparr>"
    by (auto simp: RemoteInstance_def split: sum.splits)
  from p show ?thesis
  proof (cases rule: ProcessGceInstance_cases)
    case (1 nis)
    let ?self = "Instance\<lparr>ins_name := gce_name gce, ins_createtime := gce_creationTimestamp gce,
                           ins_status := gce_status gce\<rparr>"
    from 1(3) consider
        (plain) "scan_metadata (metadata_items gce) ?self = Inr i'"
      | (tunnel) ip fp where "ip \<noteq> []" "GetAdbVncPortFromSSHTunnel ip out = Inr fp"
          "scan_metadata (metadata_items gce) (set_tunnel_fields ip fp ?self) = Inr i'"
      by blast
    then show ?thesis
    proof cases
      case plain
      from scan_metadata_keeps [OF this] show ?thesis
        by (simp add: i Instance_def)
    next
      case tunnel
      from scan_metadata_keeps [OF tunnel(3)] tunnel(1) tunnel_ports_together [OF tunnel(2)]
      show ?thesis
        by (simp add: i set_tunnel_fields_sel)
    qed
  qed
qed

section \<open>The claims about remote instances\<close>

text \<open>
  C1. The claim: the tunnel lookup returns a port pair only for a line whose two
  forwarding clauses target the default VNC and ADB ports and that references exactly
  the given address; a line for a different address gives \<open>(None, None)\<close>.
  The code pastes the address at the end of the pattern, unescaped and with nothing
  after it, so a line whose address merely starts with the target address matches:
  looking up \<open>35.1.2.3\<close> in a process table whose only tunnel goes to \<open>35.1.2.34\<close>
  returns that tunnel's ports.
\<close>

theorem tunnel_matches_longer_ip:
  "GetAdbVncPortFromSSHTunnel ''35.1.2.3''
     tunnel_line_other_ip
   = Inr \<lparr>vnc_port = Some 6444, adb_port = Some 6520\<rparr>"
  by (simp add: GetAdbVncPortFromSSHTunnel_groups splitlines_def tunnel_run_other_ip
        int_of_digits_def digit_val_def del: first_match.simps)


text \<open>
  C2, as the code has it. The claim states that the tunnel counts as connected exactly
  when both ports are present. The test in the code is \<open>if self._adb_port:\<close>, so a
  remote instance is connected exactly when its ADB port is present and not zero;
  the two ports are always present or absent together; a local instance is always
  connected, with both default ports.
\<close>

theorem connected_iff_adb_port:
  "(RemoteInstance out gce = Inr i \<longrightarrow>
      (ins_ssh_tunnel_is_connected i = Some True \<longleftrightarrow> (\<exists>p. ins_adb_port i = Some p \<and> p \<noteq> 0))
      \<and> (ins_adb_port i = None \<longleftrightarrow> ins_vnc_port i = None))
   \<and> (LocalInstance supported out = Inr (Some j) \<longrightarrow>
        ins_ssh_tunnel_is_connected j = Some True
        \<and> ins_adb_port j = Some DEFAULT_ADB_PORT \<and> ins_vnc_port j = Some DEFAULT_VNC_PORT)"
proof (intro conjI impI)
  assume r: "RemoteInstance out gce = Inr i"
  from RemoteInstance_fields [OF r]
  show "ins_ssh_tunnel_is_connected i = Some True \<longleftrightarrow> (\<exists>p. ins_adb_port i = Some p \<and> p \<noteq> 0)"
    by auto
  from RemoteInstance_fields [OF r]
  show "ins_adb_port i = None \<longleftrightarrow> ins_vnc_port i = None"
    by auto
next
  assume l: "LocalInstance supported out = Inr (Some j)"
  then show "ins_ssh_tunnel_is_connected j = Some True"
    and "ins_adb_port j = Some DEFAULT_ADB_PORT" and "ins_vnc_port j = Some DEFAULT_VNC_PORT"
    by (auto simp: LocalInstance_def local_instance_of_def split: if_splits option.splits sum.splits)
qed


text \<open>Both hypotheses hold for the tunnel to \<open>35.1.2.3\<close> and for the example process table.\<close>

theorem connected_iff_adb_port_witness:
  "RemoteInstance tunnel_line gce_one =
     Inr \<lparr>ins_name = Some ''ins-1'',
          ins_fullname = Some ''device serial: 127.0.0.1:6520 (ins-1)'',
          ins_status = Some ''RUNNING'', ins_display = None, ins_ip = Some ''35.1.2.3'',
          ins_adb_port = Some 6520, ins_vnc_port = Some 6444,
          ins_ssh_tunnel_is_connected = Some True, ins_createtime = None,
          ins_avd_type = None, ins_avd_flavor = None, ins_is_local = Some False\<rparr>
   \<and> (\<exists>j. LocalInstance True e2e_table = Inr (Some j)
          \<and> ins_ssh_tunnel_is_connected j = Some True
          \<and> ins_adb_port j = Some DEFAULT_ADB_PORT \<and> ins_vnc_port j = Some DEFAULT_VNC_PORT)"
proof -
  let ?i = "\<lparr>ins_name = Some ''ins-1'',
          ins_fullname = Some ''device serial: 127.0.0.1:6520 (ins-1)'',
          ins_status = Some ''RUNNING'', ins_display = None, ins_ip = Some ''35.1.2.3'',
          ins_adb_port = Some 6520, ins_vnc_port = Some 6444,
          ins_ssh_tunnel_is_connected = Some True, ins_createtime = None,
          ins_avd_type = None, ins_avd_flavor = None, ins_is_local = Some False\<rparr>"
  have r: "RemoteInstance tunnel_line gce_one = Inr ?i"
    by (simp add: RemoteInstance_def ProcessGceInstance_def tunnel_connected Instance_def
          set_tunnel_fields_def FULL_NAME_STRING_def fmt_s_def show_nat_6520)
  obtain j where l: "LocalInstance True e2e_table = Inr (Some j)"
    using local_e2e_table by blast
  from connected_iff_adb_port [of tunnel_line gce_one ?i True j] r
       connected_iff_adb_port [of e2e_table gce_one ?i True j] l
  show ?thesis by simp
qed

text \<open>The claim itself fails when the ADB clause listens on port 0: both ports are
  present and the instance is not connected.\<close>

theorem connected_iff_ports_counterexample:
  "RemoteInstance tunnel_line_port_zero
     gce_one
   = Inr \<lparr>ins_name = Some ''ins-1'',
          ins_fullname = Some ''device serial: not connected (ins-1)'',
          ins_status = Some ''RUNNING'', ins_display = None, ins_ip = Some ''35.1.2.3'',
          ins_adb_port = Some 0, ins_vnc_port = Some 6444,
          ins_ssh_tunnel_is_connected = Some False, ins_createtime = None,
          ins_avd_type = None, ins_avd_flavor = None, ins_is_local = Some False\<rparr>"
  by (simp add: RemoteInstance_def ProcessGceInstance_def tunnel_port_zero Instance_def
        set_tunnel_fields_def FULL_NAME_STRING_def fmt_s_def)



text \<open>
  C3, as the code has it. The claim states that the last address that is present wins
  and that a later access config without an address does not erase it. The loop
  assigns \<open>ip\<close> from every access config, so the address is the one of the last access
  config visited, present or not; the instance keeps it unless it is missing or empty.
\<close>

theorem remote_ip_is_last_config:
  assumes "RemoteInstance out gce = Inr i" and "networkInterfaces gce = Some nis"
  shows "ins_ip i = (if last_natIP nis = Some [] then None else last_natIP nis)"
proof -
  from assms(1) obtain i' where p: "ProcessGceInstance out gce Instance = Inr i'"
    and i: "i = i'\<lparr>ins_is_local := Some False\<rparr>"
    by (auto simp: RemoteInstance_def split: sum.splits)
  from p assms(2) show ?thesis
    by (elim ProcessGceInstance_cases)
       (auto simp: i Instance_def set_tunnel_fields_def Let_def dest!: scan_metadata_keeps
             split: option.splits if_splits)
qed



theorem remote_ip_is_last_config_witness:
  "RemoteInstance [] (gce_one\<lparr>networkInterfaces := Some nis_two\<rparr>) =
     Inr \<lparr>ins_name = Some ''ins-1'',
          ins_fullname = Some ''device serial: not connected (ins-1)'',
          ins_status = Some ''RUNNING'', ins_display = None, ins_ip = Some ''35.1.2.3'',
          ins_adb_port = None, ins_vnc_port = None,
          ins_ssh_tunnel_is_connected = Some False, ins_createtime = None,
          ins_avd_type = None, ins_avd_flavor = None, ins_is_local = Some False\<rparr>
   \<and> last_natIP nis_two = Some ''35.1.2.3''"
proof -
  let ?i = "\<lparr>ins_name = Some ''ins-1'',
          ins_fullname = Some ''device serial: not connected (ins-1)'',
          ins_status = Some ''RUNNING'', ins_display = None, ins_ip = Some ''35.1.2.3'',
          ins_adb_port = None, ins_vnc_port = None,
          ins_ssh_tunnel_is_connected = Some False, ins_createtime = None,
          ins_avd_type = None, ins_avd_flavor = None, ins_is_local = Some False\<rparr>"
  have r: "RemoteInstance [] (gce_one\<lparr>networkInterfaces := Some nis_two\<rparr>) = Inr ?i"
    by (simp add: RemoteInstance_def ProcessGceInstance_def tunnel_empty_table Instance_def
          set_tunnel_fields_def FULL_NAME_STRING_def fmt_s_def)
  from remote_ip_is_last_config [of "[]" "gce_one\<lparr>networkInterfaces := Some nis_two\<rparr>" ?i nis_two] r
  show ?thesis by (simp split: if_splits)
qed

text \<open>The claim itself fails for an access config with an address followed by one
  without: the description has a last present address, the instance has none.\<close>

theorem last_non_null_natIP_counterexample:
  "RemoteInstance [] (gce_one\<lparr>networkInterfaces := Some nis_null_last\<rparr>) =
     Inr \<lparr>ins_name = Some ''ins-1'', ins_fullname = None,
          ins_status = Some ''RUNNING'', ins_display = None, ins_ip = None,
          ins_adb_port = None, ins_vnc_port = None,
          ins_ssh_tunnel_is_connected = None, ins_createtime = None,
          ins_avd_type = None, ins_avd_flavor = None, ins_is_local = Some False\<rparr>
   \<and> last_non_null_natIP nis_null_last = Some ''35.1.2.3''"
  by (simp add: RemoteInstance_def ProcessGceInstance_def Instance_def
        last_non_null_natIP_def all_access_configs_def)

text \<open>
  C8, as the code has it. The claim states that the full name shows the loopback
  serial when the ADB port is present and "not connected" when it is absent. The code
  builds the full name only under \<open>if ip:\<close>. For a remote instance with an address: an
  ADB port that is present and not zero gives a full name containing
  \<open>127.0.0.1:<port>\<close>, an absent port (or port 0) one containing "not connected".
\<close>

theorem fullname_by_connection:
  assumes "RemoteInstance out gce = Inr i" and "ins_ip i \<noteq> None"
  shows "\<exists>f. ins_fullname i = Some f \<and>
           (case ins_adb_port i of
              None \<Rightarrow> sublist ''not connected'' f
            | Some p \<Rightarrow> if p = 0 then sublist ''not connected'' f
                        else sublist (''127.0.0.1:'' @ show_nat p) f)"
proof -
  have sub: "sublist x (FULL_NAME_STRING x n)" for x n
    unfolding FULL_NAME_STRING_def sublist_def by blast
  from RemoteInstance_fields [OF assms(1)] assms(2) show ?thesis
    by (auto simp: device_serial_def sub split: option.splits)
qed


theorem fullname_by_connection_witness:
  "RemoteInstance tunnel_line gce_one =
     Inr \<lparr>ins_name = Some ''ins-1'',
          ins_fullname = Some ''device serial: 127.0.0.1:6520 (ins-1)'',
          ins_status = Some ''RUNNING'', ins_display = None, ins_ip = Some ''35.1.2.3'',
          ins_adb_port = Some 6520, ins_vnc_port = Some 6444,
          ins_ssh_tunnel_is_connected = Some True, ins_createtime = None,
          ins_avd_type = None, ins_avd_flavor = None, ins_is_local = Some False\<rparr>
   \<and> sublist (''127.0.0.1:'' @ show_nat 6520) ''device serial: 127.0.0.1:6520 (ins-1)''"
proof -
  let ?i = "\<lparr>ins_name = Some ''ins-1'',
          ins_fullname = Some ''device serial: 127.0.0.1:6520 (ins-1)'',
          ins_status = Some ''RUNNING'', ins_display = None, ins_ip = Some ''35.1.2.3'',
          ins_adb_port = Some 6520, ins_vnc_port = Some 6444,
          ins_ssh_tunnel_is_connected = Some True, ins_createtime = None,
          ins_avd_type = None, ins_avd_flavor = None, ins_is_local = Some False\<rparr>"
  have r: "RemoteInstance tunnel_line gce_one = Inr ?i"
    by (simp add: RemoteInstance_def ProcessGceInstance_def tunnel_connected Instance_def
          set_tunnel_fields_def FULL_NAME_STRING_def fmt_s_def show_nat_6520)
  from fullname_by_connection [of tunnel_line gce_one ?i] r
  show ?thesis by simp
qed

text \<open>The claim itself fails for a description without any access config: the ADB
  port is absent and there is no full name at all.\<close>

theorem fullname_absent_counterexample:
  "RemoteInstance tunnel_line gce_no_interface =
     Inr \<lparr>ins_name = Some ''ins-1'', ins_fullname = None,
          ins_status = Some ''RUNNING'', ins_display = None, ins_ip = None,
          ins_adb_port = None, ins_vnc_port = None,
          ins_ssh_tunnel_is_connected = None, ins_createtime = None,
          ins_avd_type = None, ins_avd_flavor = None, ins_is_local = Some False\<rparr>"
  by (simp add: RemoteInstance_def ProcessGceInstance_def Instance_def)

section \<open>The claim about local discovery\<close>




section \<open>The claim about the order of the forwarding clauses\<close>

text \<open>
  C10. The tunnel pattern wants the clause forwarding to the default VNC port before
  the clause forwarding to the default ADB port. If no line of the process table has
  a VNC clause followed by an ADB clause, as when the only two clauses come in the
  opposite order, the lookup returns \<open>(None, None)\<close>, whatever the address.
\<close>

theorem tunnel_needs_vnc_clause_first:
  assumes "\<forall>l\<in>set (splitlines out).
             \<not> clause_before (show_nat DEFAULT_VNC_PORT) (show_nat DEFAULT_ADB_PORT) l"
  shows "GetAdbVncPortFromSSHTunnel ip out = Inr \<lparr>vnc_port = None, adb_port = None\<rparr>"
proof -
  let ?r = "RE_SSH_TUNNEL_PATTERN RE_GROUP_VNC (show_nat DEFAULT_VNC_PORT)
              RE_GROUP_ADB (show_nat DEFAULT_ADB_PORT) ip"
  have "re_match ?r l = None" if l: "l \<in> set (splitlines out)" for l
  proof (cases "re_match ?r l")
    case None
    then show ?thesis .
  next
    case (Some g)
    then have "reads [R ?r] l"
      unfolding re_match_def by (rule run_sound)
    then have "clause_before (show_nat DEFAULT_VNC_PORT) (show_nat DEFAULT_ADB_PORT) l"
      by (rule tunnel_shape)
    with assms l show ?thesis by blast
  qed
  then have "first_match ?r (splitlines out) = None"
    by (simp add: first_match_none)
  then show ?thesis
    by (simp add: GetAdbVncPortFromSSHTunnel_def)
qed

text \<open>The line with the two clauses in the opposite order, for the address it names.\<close>

theorem tunnel_needs_vnc_clause_first_witness:
  "clause_before ''6520'' ''6444'' tunnel_line_reversed
   \<and> \<not> clause_before ''6444'' ''6520'' tunnel_line_reversed
   \<and> GetAdbVncPortFromSSHTunnel ''35.1.2.3'' tunnel_line_reversed
       = Inr \<lparr>vnc_port = None, adb_port = None\<rparr>"
proof -
  have "\<forall>l\<in>set (splitlines tunnel_line_reversed).
             \<not> clause_before (show_nat DEFAULT_VNC_PORT) (show_nat DEFAULT_ADB_PORT) l"
    using reversed_clauses
    by (simp add: splitlines_def DEFAULT_VNC_PORT_def DEFAULT_ADB_PORT_def show_nat_6444 show_nat_6520)
  from tunnel_needs_vnc_clause_first [OF this, of "''35.1.2.3''"] reversed_clauses
  show ?thesis by simp
qed


section \<open>The claim about the optional flags\<close>



section \<open>The claims about creating and deleting the local instance\<close>

lemma and_then_simps [simp]:
  "and_then (t, Return x) f = (t @ fst (f x), snd (f x))"
  "and_then (t, Raise e) f = (t, Raise e)"
  "and_then (t, Exit n) f = (t, Exit n)"
  by (simp_all add: and_then_def split: prod.splits)

text \<open>
  C6. When \<open>CheckLaunchCVD\<close> finds a launch_cvd process running, the user is prompted.
  On the answer yes the stop command runs, with its output suppressed, right after
  the prompt, and the launch command can only come after it (it does when the stop
  command succeeds). On any other answer the process exits with status 0 and the
  launch command is never run.
\<close>

theorem relaunch_conflict_path:
  assumes "is_command_running h CMD_LAUNCH_CVD"
  shows "(user_answer_yes h CONFIRM_RELAUNCH \<longrightarrow>
            (\<exists>rest. fst (CheckLaunchCVD h cmd dir) =
                      [IsCommandRunning CMD_LAUNCH_CVD, Prompt CONFIRM_RELAUNCH,
                       CheckCall (add_user_groups h (path_join dir CMD_STOP_CVD)) True] @ rest
                  \<and> (rest = [] \<or> rest = [CheckOutput cmd])
                  \<and> (\<forall>out. run_shell h (add_user_groups h (path_join dir CMD_STOP_CVD)) = Completed out
                         \<longrightarrow> rest = [CheckOutput cmd])))
       \<and> (\<not> user_answer_yes h CONFIRM_RELAUNCH \<longrightarrow>
            CheckLaunchCVD h cmd dir =
              ([IsCommandRunning CMD_LAUNCH_CVD, Prompt CONFIRM_RELAUNCH, Print ''Exiting out''],
               Exit 0))"
  using assms
  by (cases "run_shell h (add_user_groups h (path_join dir CMD_STOP_CVD))")
     (auto simp: CheckLaunchCVD_def emit_def stop_cvd_def launch_cvd_def)

theorem relaunch_conflict_path_witness:
  "CheckLaunchCVD (host_running True) ''launch_cvd --daemon'' ''/out/host/bin'' =
     ([IsCommandRunning CMD_LAUNCH_CVD, Prompt CONFIRM_RELAUNCH,
       CheckCall ''sg kvm -c /out/host/bin/stop_cvd'' True, CheckOutput ''launch_cvd --daemon''],
      Return ())
   \<and> CheckLaunchCVD (host_running False) ''launch_cvd --daemon'' ''/out/host/bin'' =
     ([IsCommandRunning CMD_LAUNCH_CVD, Prompt CONFIRM_RELAUNCH, Print ''Exiting out''], Exit 0)"
proof -
  have "CheckLaunchCVD (host_running True) ''launch_cvd --daemon'' ''/out/host/bin'' =
     ([IsCommandRunning CMD_LAUNCH_CVD, Prompt CONFIRM_RELAUNCH,
       CheckCall ''sg kvm -c /out/host/bin/stop_cvd'' True, CheckOutput ''launch_cvd --daemon''],
      Return ())"
    by (simp add: CheckLaunchCVD_def emit_def stop_cvd_def launch_cvd_def path_join_def
          CMD_STOP_CVD_def)
  with relaunch_conflict_path [of "host_running True" "''launch_cvd --daemon''" "''/out/host/bin''"]
       relaunch_conflict_path [of "host_running False" "''launch_cvd --daemon''" "''/out/host/bin''"]
  show ?thesis by simp
qed

text \<open>
  What \<open>_CreateAVD\<close> does when the image check fails, and when \<open>ANDROID_HOST_OUT\<close> is
  set and \<open>bin/launch_cvd\<close> is not under it: it raises the error for the missing
  artifact (\<open>GetLocalImageError\<close> with the message of the check, or
  \<open>GetCvdLocalHostPackageError\<close> naming launch_cvd and the build command), and the only
  thing done before is printing the disclaimer.
\<close>

lemma missing_artifacts_with_host_out:
  "(image_artifacts_error h (local_image_dir spec) = Some msg \<longrightarrow>
      CreateAVD h spec = ([Print DISCLAIMER], Raise (GetLocalImageError msg)))
   \<and> (image_artifacts_error h (local_image_dir spec) = None \<and> android_host_out h = Some d
        \<and> \<not> path_exists h (path_join3 d ''bin'' CMD_LAUNCH_CVD) \<longrightarrow>
      CreateAVD h spec = ([Print DISCLAIMER], Raise (GetCvdLocalHostPackageError NO_LAUNCH_CVD)))
   \<and> \<not> list_ex is_subprocess [Print DISCLAIMER]
   \<and> sublist CMD_LAUNCH_CVD NO_LAUNCH_CVD \<and> sublist ''m launch_cvd'' NO_LAUNCH_CVD"
proof -
  have "NO_LAUNCH_CVD = ''No '' @ CMD_LAUNCH_CVD @ '' found. Please run '' @ [CHR 0x22]
          @ ''m launch_cvd'' @ [CHR 0x22] @ '' first''"
    by (simp add: NO_LAUNCH_CVD_def CMD_LAUNCH_CVD_def)
  then have s1: "sublist CMD_LAUNCH_CVD NO_LAUNCH_CVD"
    unfolding sublist_def by blast
  have "NO_LAUNCH_CVD = (''No launch_cvd found. Please run '' @ [CHR 0x22])
          @ ''m launch_cvd'' @ ([CHR 0x22] @ '' first'')"
    by (simp add: NO_LAUNCH_CVD_def)
  then have s2: "sublist ''m launch_cvd'' NO_LAUNCH_CVD"
    unfolding sublist_def by blast
  show ?thesis
    using s1 s2 by (auto simp: CreateAVD_def emit_def GetImageArtifactsPath_def)
qed

text \<open>
  C7. The claim: creation with the image directory or the launch package absent fails
  with the error for the missing artifact, naming the item and a remedy, before any
  subprocess runs. The code looks for the package under \<open>ANDROID_HOST_OUT\<close>. When that
  variable is not set, as on a host where no launch package was ever built,
  \<open>os.path.join(None, "bin", "launch_cvd")\<close> raises an \<open>AttributeError\<close>: creation
  stops before any subprocess, but the error is not the one for a missing package and
  names neither the package nor the build command.
\<close>

theorem create_without_host_out_raises_attribute_error:
  "CreateAVD host_no_host_out spec_example = ([Print DISCLAIMER], Raise AttributeError)"
  by (simp add: CreateAVD_def emit_def GetImageArtifactsPath_def)

text \<open>
  C9. Whenever the stop command succeeds, also for the empty stop path that the test
  uses, deleting the local instance returns the report with command "delete", status
  "SUCCESS" and the single deleted item of type "instance" named "local-instance".
\<close>

theorem delete_local_instance_report:
  "run_shell h (add_user_groups h stop_cvd_path) = Completed out \<Longrightarrow>
   DeleteLocalInstance h stop_cvd_path =
     ([CheckCall (add_user_groups h stop_cvd_path) True],
      Return \<lparr>rep_command = ''delete'', rep_status = ''SUCCESS'',
              rep_data = [(''deleted'', [JDict [(''type'', JStr ''instance''),
                                                (''name'', JStr ''local-instance'')]])]\<rparr>)"
  by (simp add: DeleteLocalInstance_def stop_cvd_def AddData_def SetStatus_def Report_def
        LOCAL_INS_NAME_def)

theorem delete_local_instance_report_witness:
  "DeleteLocalInstance host_no_package [] =
     ([CheckCall ''sg kvm -c '' True],
      Return \<lparr>rep_command = ''delete'', rep_status = ''SUCCESS'',
              rep_data = [(''deleted'', [JDict [(''type'', JStr ''instance''),
                                                (''name'', JStr ''local-instance'')]])]\<rparr>)"
  using delete_local_instance_report [of host_no_package "[]" "[]"] by simp

end
